theory Spec2Isabelle
  imports Complex_Main
begin

section \<open>The Twitter bot of \<^verbatim>\<open>chat-bot.py\<close>\<close>

text \<open>
  A shallow embedding of \<^verbatim>\<open>src/chat-bot.py\<close>. The remote API (the \<^verbatim>\<open>tweepy\<close>
  objects), the clock, \<^verbatim>\<open>time.sleep\<close>, \<^verbatim>\<open>random.choice\<close> and the process environment
  are outside the program: each of their calls gets its outcome from an explicit
  environment, and an outcome is either a returned value or a raised exception. Every
  function returns its result together with the list of effects it performed, in order
  (log lines, prints, sleeps and API calls). Calls of \<^verbatim>\<open>logger\<close> and \<^verbatim>\<open>print\<close> are taken
  to return normally.
\<close>

subsection \<open>Exceptions\<close>

text \<open>
  The exception classes the source names, and one representative for the rest of each
  layer of the hierarchy: \<open>TweepyException\<close> stands for any other subclass of
  \<^verbatim>\<open>tweepy.TweepyException\<close>, \<open>Exception\<close> for any other subclass of \<^verbatim>\<open>Exception\<close>
  (\<^verbatim>\<open>ValueError\<close>, \<^verbatim>\<open>AttributeError\<close>, \<^verbatim>\<open>KeyError\<close>, \<^verbatim>\<open>OSError\<close>, ...) and
  \<open>BaseException\<close> for any other subclass of \<^verbatim>\<open>BaseException\<close> (\<^verbatim>\<open>SystemExit\<close>).
  In tweepy, \<^verbatim>\<open>TooManyRequests\<close> and \<^verbatim>\<open>Forbidden\<close> derive from \<^verbatim>\<open>HTTPException\<close>, which
  derives from \<^verbatim>\<open>TweepyException\<close>, which derives from \<^verbatim>\<open>Exception\<close>;
  \<^verbatim>\<open>KeyboardInterrupt\<close> derives from \<^verbatim>\<open>BaseException\<close> only.
\<close>

datatype exn_class =
  TooManyRequests | Forbidden | TweepyException | Exception | KeyboardInterrupt | BaseException

text \<open>An exception object: its class and \<^verbatim>\<open>str(e)\<close>.\<close>

datatype exn = Exn (cls: exn_class) (str: string)

fun issubclass :: "exn_class \<Rightarrow> exn_class \<Rightarrow> bool" where
  "issubclass c BaseException = True"
| "issubclass c Exception = (c \<noteq> KeyboardInterrupt \<and> c \<noteq> BaseException)"
| "issubclass c TweepyException = (c = TweepyException \<or> c = TooManyRequests \<or> c = Forbidden)"
| "issubclass c d = (c = d)"

definition isinstance :: "exn \<Rightarrow> exn_class \<Rightarrow> bool" where
  "isinstance e d = issubclass (cls e) d"

subsection \<open>Effects\<close>

datatype level = INFO | WARNING | ERROR | CRITICAL

text \<open>One constructor for each message the source logs or prints.\<close>

datatype msg =
    Missing_environment_variables "string list"
  | Create_a_env_file
  | Connected_as string
  | Authentication_failed exn
  | Posted_tweet string string
  | Rate_limit_exceeded
  | Posting_tweets_forbidden
  | Error_posting_tweet exn
  | No_recent_tweets_found string
  | Liked_tweet string nat
  | Tweet_already_liked nat
  | Error_liking_tweet nat exn
  | Rate_limit_exceeded_when_searching
  | Error_searching_or_liking exn
  | No_new_mentions_found
  | Found_mentions nat
  | Replied_to string
  | Error_replying_to_mention exn
  | Rate_limit_exceeded_when_getting_mentions
  | Error_processing_mentions exn
  | Followed_back string
  | Error_following_user string exn
  | Followed_back_users nat
  | No_new_users_to_follow_back
  | Error_in_follow_back_process exn
  | Starting_Twitter_bot
  | Could_not_authenticate
  | Bot_is_now_running
  | Waiting_for_next_check
  | Bot_stopped_by_user
  | Unhandled_error exn
  | Too_many_consecutive_errors nat
  | Waiting_seconds_before_retry nat

datatype call =
    Create_tweet string "nat option"
  | Get_me
  | Get_users_mentions nat "nat option"
  | Get_user nat
  | Follow_user nat
  | Search_recent_tweets string
  | Create_favorite nat
  | Get_followers nat
  | Get_friends nat

datatype event = Log level msg | Print msg | Sleep nat | Call call

subsection \<open>The collaborator\<close>

record user =
  user_id :: nat
  username :: string

record tweet =
  tweet_id :: nat

record mention =
  mention_id :: nat
  author_id :: nat

text \<open>
  The response of \<^verbatim>\<open>get_users_mentions\<close>: \<open>data\<close> is \<^verbatim>\<open>mentions.data\<close> (the empty list also
  stands for \<^verbatim>\<open>None\<close>: the source tests \<^verbatim>\<open>not mentions.data\<close>), \<open>includes_users\<close> is
  \<^verbatim>\<open>mentions.includes["users"]\<close>, and \<open>None\<close> when \<^verbatim>\<open>includes\<close> is empty or has no such
  key.
\<close>

record mentions =
  data :: "mention list"
  includes_users :: "user list option"

text \<open>
  A \<^verbatim>\<open>tweepy.Client\<close>: the outcome of each method the source calls. \<open>get_me\<close> and
  \<open>get_user\<close> give the \<^verbatim>\<open>.data\<close> of the response; a response whose \<^verbatim>\<open>data\<close> is \<^verbatim>\<open>None\<close>
  makes the attribute access that follows raise \<^verbatim>\<open>AttributeError\<close>, which is the outcome
  \<open>Inl\<close> of class \<open>Exception\<close> here. \<open>create_tweet\<close> gives \<^verbatim>\<open>response.data['id']\<close>, a
  string. Tweet and user ids are the non-negative integers tweepy parses from the API's
  decimal id strings.
\<close>

record client =
  get_me :: "exn + user"
  create_tweet :: "string \<Rightarrow> nat option \<Rightarrow> exn + string"
  get_users_mentions :: "nat \<Rightarrow> nat option \<Rightarrow> exn + mentions"
  get_user :: "nat \<Rightarrow> exn + user"
  follow_user :: "nat \<Rightarrow> exn option"
  search_recent_tweets :: "string \<Rightarrow> exn + tweet list"

text \<open>The \<^verbatim>\<open>tweepy.API\<close> object of the v1.1 endpoints.\<close>

record api =
  create_favorite :: "nat \<Rightarrow> exn option"
  get_followers :: "nat \<Rightarrow> exn + user list"
  get_friends :: "nat \<Rightarrow> exn + user list"

subsection \<open>Configuration\<close>

definition TWEET_INTERVAL :: real where
  "TWEET_INTERVAL = 60 * 60"

definition HASHTAGS_TO_LIKE :: "string list" where
  "HASHTAGS_TO_LIKE = [''python'', ''coding'', ''technology'']"

definition MAX_LIKES_PER_RUN :: nat where
  "MAX_LIKES_PER_RUN = 3"

definition TWEETS :: "string list" where
  "TWEETS =
    [''Just another day coding with Python! #Python #Coding'',
     ''Exploring new programming techniques today. #Coding #Technology'',
     ''Automation makes life easier! #Python #Technology'',
     ''Building cool stuff with code. #Coding #Development'',
     ''Learning something new every day in tech. #Technology #Learning'']"

text \<open>
  \<^verbatim>\<open>random.choice(xs)\<close> on a non-empty list: the environment supplies a number \<open>r\<close>, and
  the element chosen is the one at index \<open>r mod len(xs)\<close>.
\<close>

definition random_choice :: "nat \<Rightarrow> 'a list \<Rightarrow> 'a" where
  "random_choice r xs = xs ! (r mod length xs)"

subsection \<open>Truthiness\<close>

text \<open>Python's truth value of an optional string and of an optional integer.\<close>

fun truthy_str :: "string option \<Rightarrow> bool" where
  "truthy_str None = False"
| "truthy_str (Some s) = (s \<noteq> [])"

fun truthy_id :: "nat option \<Rightarrow> bool" where
  "truthy_id None = False"
| "truthy_id (Some n) = (n \<noteq> 0)"

subsection \<open>\<^verbatim>\<open>post_tweet\<close>\<close>

text \<open>
  \<open>post_tweet r client\<close>: \<open>r\<close> drives \<^verbatim>\<open>random.choice\<close>. The result is \<open>Inr\<close> of the returned
  value (\<open>Some tweet_id\<close>, or \<open>None\<close>), or \<open>Inl\<close> of an exception that leaves the function.
\<close>

definition post_tweet :: "nat \<Rightarrow> client \<Rightarrow> (exn + string option) \<times> event list" where
  "post_tweet r client =
    (let tweet = random_choice r TWEETS in
     case create_tweet client tweet None of
       Inr tid \<Rightarrow>
         (Inr (Some tid), [Call (Create_tweet tweet None), Log INFO (Posted_tweet tweet tid)])
     | Inl e \<Rightarrow>
         if isinstance e TooManyRequests then
           (Inr None, [Call (Create_tweet tweet None), Log WARNING Rate_limit_exceeded])
         else if isinstance e Forbidden then
           (Inr None, [Call (Create_tweet tweet None), Log ERROR Posting_tweets_forbidden])
         else if isinstance e Exception then
           (Inr None, [Call (Create_tweet tweet None), Log ERROR (Error_posting_tweet e)])
         else (Inl e, [Call (Create_tweet tweet None)]))"

subsection \<open>\<^verbatim>\<open>run_bot\<close>: the main loop\<close>

text \<open>
  The local variables of \<^verbatim>\<open>run_bot\<close> that the loop reads or writes. The counter starts at
  0 and is only reset or incremented.
\<close>

record bot_state =
  since_id :: "nat option"
  last_tweet_time :: real
  last_follow_back_time :: real
  consecutive_errors :: nat

definition max_errors :: nat where
  "max_errors = 5"

text \<open>
  What the outside world does during one pass of the \<^verbatim>\<open>while\<close> body: the outcome of
  \<^verbatim>\<open>time.time()\<close>, the number behind \<^verbatim>\<open>random.choice\<close>, the behaviour of \<^verbatim>\<open>client_v1\<close>,
  and the outcome of \<^verbatim>\<open>time.sleep(n)\<close> (\<open>None\<close> when it returns, \<open>Some e\<close> when \<open>e\<close> is
  raised while sleeping, as \<^verbatim>\<open>KeyboardInterrupt\<close> is on CTRL+C).
\<close>

record tick =
  time_time :: "exn + real"
  choice :: nat
  client_v1 :: client
  time_sleep :: "nat \<Rightarrow> exn option"

text \<open>The guard of line 298: whether posting is due at \<open>current_time\<close>.\<close>

definition is_due :: "real \<Rightarrow> bot_state \<Rightarrow> bool" where
  "is_due current_time s = (current_time - last_tweet_time s \<ge> TWEET_INTERVAL)"

text \<open>
  Lines 292 to 311, the actions of one cycle (only \<^verbatim>\<open>post_tweet\<close> is enabled in the
  source): \<open>Inr\<close> when control reaches line 314, \<open>Inl e\<close> when \<open>e\<close> is raised before.
\<close>

definition actions :: "tick \<Rightarrow> bot_state \<Rightarrow> (exn + unit) \<times> bot_state \<times> event list" where
  "actions t s =
    (case time_time t of
       Inl e \<Rightarrow> (Inl e, s, [])
     | Inr current_time \<Rightarrow>
         if is_due current_time s then
           (case post_tweet (choice t) (client_v1 t) of
              (Inl e, ev) \<Rightarrow> (Inl e, s, ev)
            | (Inr r, ev) \<Rightarrow>
                (Inr (), if truthy_str r then s\<lparr>last_tweet_time := current_time\<rparr> else s, ev))
         else (Inr (), s, []))"

text \<open>
  The \<^verbatim>\<open>try\<close> block, lines 292 to 318: the actions, the reset of the counter, the log line
  and the sleep of 100 seconds.
\<close>

definition try_block :: "tick \<Rightarrow> bot_state \<Rightarrow> (exn + unit) \<times> bot_state \<times> event list" where
  "try_block t s =
    (case actions t s of
       (Inl e, s1, ev) \<Rightarrow> (Inl e, s1, ev)
     | (Inr _, s1, ev) \<Rightarrow>
         (let s2 = s1\<lparr>consecutive_errors := 0\<rparr>;
              ev2 = ev @ [Log INFO Waiting_for_next_check, Sleep 100]
          in case time_sleep t 100 of
               Some e \<Rightarrow> (Inl e, s2, ev2)
             | None \<Rightarrow> (Inr (), s2, ev2)))"

text \<open>Line 332.\<close>

definition wait_time :: "nat \<Rightarrow> nat" where
  "wait_time n = min (300 * (2 ^ (n - 1))) 3600"

text \<open>How one pass of the \<^verbatim>\<open>while\<close> body ends.\<close>

datatype cycle_end = Continue | Break | Raise exn

text \<open>
  One pass of the \<^verbatim>\<open>while\<close> body: the \<^verbatim>\<open>try\<close> block and its two handlers. An exception
  that is neither a \<^verbatim>\<open>KeyboardInterrupt\<close> nor an \<^verbatim>\<open>Exception\<close> leaves the loop, and so does
  anything raised by the sleep of line 334, which is inside the handler.
\<close>

definition cycle :: "tick \<Rightarrow> bot_state \<Rightarrow> cycle_end \<times> bot_state \<times> event list" where
  "cycle t s =
    (case try_block t s of
       (Inr _, s1, ev) \<Rightarrow> (Continue, s1, ev)
     | (Inl e, s1, ev) \<Rightarrow>
         if isinstance e KeyboardInterrupt then (Break, s1, ev @ [Print Bot_stopped_by_user])
         else if isinstance e Exception then
           (let s2 = s1\<lparr>consecutive_errors := consecutive_errors s1 + 1\<rparr>;
                ev2 = ev @ [Log ERROR (Unhandled_error e)]
            in if consecutive_errors s2 \<ge> max_errors then
                 (Break, s2, ev2 @ [Log CRITICAL (Too_many_consecutive_errors (consecutive_errors s2))])
               else
                 (let w = wait_time (consecutive_errors s2);
                      ev3 = ev2 @ [Log WARNING (Waiting_seconds_before_retry w), Sleep w]
                  in case time_sleep t w of
                       Some e' \<Rightarrow> (Raise e', s2, ev3)
                     | None \<Rightarrow> (Continue, s2, ev3)))
         else (Raise e, s1, ev))"

text \<open>How a run of the loop ends; \<open>Running\<close> when the script of ticks is used up.\<close>

datatype run_end = Running | Returned | Raised exn

fun run_loop :: "tick list \<Rightarrow> bot_state \<Rightarrow> run_end \<times> bot_state \<times> event list" where
  "run_loop [] s = (Running, s, [])"
| "run_loop (t # ts) s =
    (case cycle t s of
       (Continue, s1, ev) \<Rightarrow> (case run_loop ts s1 of (r, s2, ev') \<Rightarrow> (r, s2, ev @ ev'))
     | (Break, s1, ev) \<Rightarrow> (Returned, s1, ev)
     | (Raise e, s1, ev) \<Rightarrow> (Raised e, s1, ev))"

definition initial_state :: bot_state where
  "initial_state =
    \<lparr>since_id = None, last_tweet_time = 0, last_follow_back_time = 0, consecutive_errors = 0\<rparr>"

subsection \<open>\<^verbatim>\<open>like_tweets\<close>\<close>

text \<open>\<^verbatim>\<open>s.lower()\<close> on ASCII text, and the substring test \<^verbatim>\<open>needle in s\<close>.\<close>

definition lower_char :: "char \<Rightarrow> char" where
  "lower_char c =
    (let n = (of_char c :: nat) in if 65 \<le> n \<and> n \<le> 90 then char_of (n + 32) else c)"

definition lower :: "string \<Rightarrow> string" where
  "lower s = map lower_char s"

fun contains :: "string \<Rightarrow> string \<Rightarrow> bool" where
  "contains [] needle = (needle = [])"
| "contains (c # cs) needle = (take (length needle) (c # cs) = needle \<or> contains cs needle)"

definition prepend :: "event list \<Rightarrow> 'a \<times> event list \<Rightarrow> 'a \<times> event list" where
  "prepend ev p = (fst p, ev @ snd p)"

text \<open>
  The inner \<^verbatim>\<open>try\<close> block of the loop, lines 150 to 153: the exception raised if any, the
  counter and the effects. \<open>sl\<close> is \<^verbatim>\<open>time.sleep\<close>.
\<close>

definition like_one ::
  "(nat \<Rightarrow> exn option) \<Rightarrow> api \<Rightarrow> string \<Rightarrow> tweet \<Rightarrow> nat \<Rightarrow> exn option \<times> nat \<times> event list" where
  "like_one sl api_v1 hashtag t liked_count =
    (case create_favorite api_v1 (tweet_id t) of
       Some e \<Rightarrow> (Some e, liked_count, [Call (Create_favorite (tweet_id t))])
     | None \<Rightarrow>
         (sl 5, liked_count + 1,
          [Call (Create_favorite (tweet_id t)), Log INFO (Liked_tweet hashtag (tweet_id t)), Sleep 5]))"

text \<open>The \<^verbatim>\<open>for\<close> loop of lines 147 to 158.\<close>

fun like_loop ::
  "(nat \<Rightarrow> exn option) \<Rightarrow> api \<Rightarrow> string \<Rightarrow> tweet list \<Rightarrow> nat \<Rightarrow> (exn + nat) \<times> event list" where
  "like_loop sl api_v1 hashtag [] liked_count = (Inr liked_count, [])"
| "like_loop sl api_v1 hashtag (t # ts) liked_count =
    (case like_one sl api_v1 hashtag t liked_count of
       (None, n, ev) \<Rightarrow> prepend ev (like_loop sl api_v1 hashtag ts n)
     | (Some e, n, ev) \<Rightarrow>
         if isinstance e TweepyException then
           prepend
             (ev @ [if contains (lower (str e)) ''already favorited''
                    then Log INFO (Tweet_already_liked (tweet_id t))
                    else Log ERROR (Error_liking_tweet (tweet_id t) e)])
             (like_loop sl api_v1 hashtag ts n)
         else (Inl e, ev))"

text \<open>The outer \<^verbatim>\<open>try\<close> block, lines 134 to 160.\<close>

definition like_body ::
  "nat \<Rightarrow> (nat \<Rightarrow> exn option) \<Rightarrow> client \<Rightarrow> api \<Rightarrow> (exn + nat) \<times> event list" where
  "like_body r sl client_v2 api_v1 =
    (let hashtag = random_choice r HASHTAGS_TO_LIKE;
         query = ''#'' @ hashtag @ '' -is:retweet lang:en''
     in case search_recent_tweets client_v2 query of
          Inl e \<Rightarrow> (Inl e, [Call (Search_recent_tweets query)])
        | Inr tweets \<Rightarrow>
            if tweets = [] then
              (Inr 0, [Call (Search_recent_tweets query), Log INFO (No_recent_tweets_found hashtag)])
            else
              prepend [Call (Search_recent_tweets query)]
                (like_loop sl api_v1 hashtag (take MAX_LIKES_PER_RUN tweets) 0))"

definition like_tweets ::
  "nat \<Rightarrow> (nat \<Rightarrow> exn option) \<Rightarrow> client \<Rightarrow> api \<Rightarrow> (exn + nat) \<times> event list" where
  "like_tweets r sl client_v2 api_v1 =
    (case like_body r sl client_v2 api_v1 of
       (Inr n, ev) \<Rightarrow> (Inr n, ev)
     | (Inl e, ev) \<Rightarrow>
         if isinstance e TooManyRequests then
           (Inr 0, ev @ [Log WARNING Rate_limit_exceeded_when_searching])
         else if isinstance e Exception then
           (Inr 0, ev @ [Log ERROR (Error_searching_or_liking e)])
         else (Inl e, ev))"

subsection \<open>\<^verbatim>\<open>reply_to_mentions\<close>\<close>

text \<open>\<^verbatim>\<open>not x or i > x\<close>, for an id \<open>i\<close> and an optional id \<open>x\<close>.\<close>

fun newer :: "nat \<Rightarrow> nat option \<Rightarrow> bool" where
  "newer i None = True"
| "newer i (Some x) = (x = 0 \<or> i > x)"

text \<open>Lines 199 to 204: the username of the author among the included users.\<close>

definition find_username :: "user list option \<Rightarrow> nat \<Rightarrow> string option" where
  "find_username inc a =
    (case inc of
       None \<Rightarrow> None
     | Some us \<Rightarrow> (case find (\<lambda>u. user_id u = a) us of None \<Rightarrow> None | Some u \<Rightarrow> Some (username u)))"

text \<open>Lines 198 to 208: the username, fetched with \<^verbatim>\<open>get_user\<close> when it is not included.\<close>

definition resolve_username :: "client \<Rightarrow> mentions \<Rightarrow> mention \<Rightarrow> (exn + string) \<times> event list" where
  "resolve_username c resp m =
    (case find_username (includes_users resp) (author_id m) of
       Some u \<Rightarrow>
         if u \<noteq> [] then (Inr u, [])
         else (case get_user c (author_id m) of
                 Inl e \<Rightarrow> (Inl e, [Call (Get_user (author_id m))])
               | Inr usr \<Rightarrow> (Inr (username usr), [Call (Get_user (author_id m))]))
     | None \<Rightarrow>
         (case get_user c (author_id m) of
            Inl e \<Rightarrow> (Inl e, [Call (Get_user (author_id m))])
          | Inr usr \<Rightarrow> (Inr (username usr), [Call (Get_user (author_id m))])))"

text \<open>The inner \<^verbatim>\<open>try\<close> block, lines 213 to 218: the exception raised if any, and the effects.\<close>

definition reply_one ::
  "(nat \<Rightarrow> exn option) \<Rightarrow> client \<Rightarrow> string \<Rightarrow> mention \<Rightarrow> exn option \<times> event list" where
  "reply_one sl c uname m =
    (let reply = ''@'' @ uname @ '' Thanks for the mention! This is an automated reply.''
     in case create_tweet c reply (Some (mention_id m)) of
          Inl e \<Rightarrow> (Some e, [Call (Create_tweet reply (Some (mention_id m)))])
        | Inr _ \<Rightarrow>
            (sl 5, [Call (Create_tweet reply (Some (mention_id m))), Log INFO (Replied_to uname), Sleep 5]))"

text \<open>The \<^verbatim>\<open>for\<close> loop of lines 192 to 220; the last argument is \<^verbatim>\<open>new_since_id\<close>.\<close>

fun reply_loop ::
  "(nat \<Rightarrow> exn option) \<Rightarrow> client \<Rightarrow> mentions \<Rightarrow> nat option \<Rightarrow> mention list \<Rightarrow> nat option
    \<Rightarrow> (exn + nat option) \<times> event list" where
  "reply_loop sl c resp since [] new_since_id = (Inr new_since_id, [])"
| "reply_loop sl c resp since (m # ms) new_since_id =
    (if newer (mention_id m) since then
       (let new' = (if newer (mention_id m) new_since_id then Some (mention_id m) else new_since_id)
        in case resolve_username c resp m of
             (Inl e, ev) \<Rightarrow> (Inl e, ev)
           | (Inr uname, ev) \<Rightarrow>
               (case reply_one sl c uname m of
                  (None, ev1) \<Rightarrow> prepend (ev @ ev1) (reply_loop sl c resp since ms new')
                | (Some e, ev1) \<Rightarrow>
                    if isinstance e Exception then
                      prepend (ev @ ev1 @ [Log ERROR (Error_replying_to_mention e)])
                        (reply_loop sl c resp since ms new')
                    else (Inl e, ev @ ev1)))
     else reply_loop sl c resp since ms new_since_id)"

text \<open>The outer \<^verbatim>\<open>try\<close> block, lines 171 to 222.\<close>

definition reply_body ::
  "(nat \<Rightarrow> exn option) \<Rightarrow> client \<Rightarrow> nat option \<Rightarrow> (exn + nat option) \<times> event list" where
  "reply_body sl c since =
    (case get_me c of
       Inl e \<Rightarrow> (Inl e, [Call Get_me])
     | Inr me \<Rightarrow>
         (let arg = (if truthy_id since then since else None);
              ev = [Call Get_me, Call (Get_users_mentions (user_id me) arg)]
          in case get_users_mentions c (user_id me) arg of
               Inl e \<Rightarrow> (Inl e, ev)
             | Inr resp \<Rightarrow>
                 if data resp = [] then (Inr since, ev @ [Log INFO No_new_mentions_found])
                 else
                   prepend (ev @ [Log INFO (Found_mentions (length (data resp)))])
                     (reply_loop sl c resp since (data resp) since)))"

definition reply_to_mentions ::
  "(nat \<Rightarrow> exn option) \<Rightarrow> client \<Rightarrow> nat option \<Rightarrow> (exn + nat option) \<times> event list" where
  "reply_to_mentions sl c since =
    (case reply_body sl c since of
       (Inr v, ev) \<Rightarrow> (Inr v, ev)
     | (Inl e, ev) \<Rightarrow>
         if isinstance e TooManyRequests then
           (Inr since, ev @ [Log WARNING Rate_limit_exceeded_when_getting_mentions])
         else if isinstance e Exception then
           (Inr since, ev @ [Log ERROR (Error_processing_mentions e)])
         else (Inl e, ev))"

text \<open>
  Lines 192 to 195 alone: the value of \<^verbatim>\<open>new_since_id\<close> after the \<^verbatim>\<open>for\<close> loop has gone
  through the mentions \<open>ms\<close>, whatever the replies do.
\<close>

fun cursor_after :: "nat option \<Rightarrow> mention list \<Rightarrow> nat option \<Rightarrow> nat option" where
  "cursor_after since [] new_since_id = new_since_id"
| "cursor_after since (m # ms) new_since_id =
    (if newer (mention_id m) since then
       cursor_after since ms
         (if newer (mention_id m) new_since_id then Some (mention_id m) else new_since_id)
     else cursor_after since ms new_since_id)"

subsection \<open>\<^verbatim>\<open>follow_back_users\<close>\<close>





subsection \<open>Authentication and \<^verbatim>\<open>run_bot\<close>\<close>

definition required_vars :: "string list" where
  "required_vars =
    [''TWITTER_API_KEY'', ''TWITTER_API_SECRET'', ''TWITTER_ACCESS_TOKEN'',
     ''TWITTER_ACCESS_SECRET'', ''TWITTER_BEARER_TOKEN'']"

record credentials =
  api_key :: "string option"
  api_secret :: "string option"
  access_token :: "string option"
  access_secret :: "string option"
  bearer_token :: "string option"

text \<open>\<open>environ\<close> is \<^verbatim>\<open>os.getenv\<close>.\<close>

definition get_credentials :: "(string \<Rightarrow> string option) \<Rightarrow> credentials option \<times> event list" where
  "get_credentials environ =
    (let missing = filter (\<lambda>var. \<not> truthy_str (environ var)) required_vars
     in if missing \<noteq> [] then
          (None, [Log ERROR (Missing_environment_variables missing), Log ERROR Create_a_env_file])
        else
          (Some \<lparr>api_key = environ ''TWITTER_API_KEY'',
                 api_secret = environ ''TWITTER_API_SECRET'',
                 access_token = environ ''TWITTER_ACCESS_TOKEN'',
                 access_secret = environ ''TWITTER_ACCESS_SECRET'',
                 bearer_token = environ ''TWITTER_BEARER_TOKEN''\<rparr>, []))"

text \<open>
  The three objects \<^verbatim>\<open>authenticate_twitter\<close> builds are handles here: what the collaborator
  answers through them is the environment's. The function returns a Python tuple, a list
  of optional handles here. \<open>connect\<close> is the outcome of its \<^verbatim>\<open>try\<close> block up to the access of
  \<^verbatim>\<open>me.data.username\<close>.
\<close>

datatype handle = Client_v1 | Client_v2 | Api_v1

definition authenticate_twitter ::
  "(string \<Rightarrow> string option) \<Rightarrow> (credentials \<Rightarrow> exn + user)
    \<Rightarrow> (exn + handle option list) \<times> event list" where
  "authenticate_twitter environ connect =
    (case get_credentials environ of
       (None, ev) \<Rightarrow> (Inr [None, None], ev)
     | (Some cr, ev) \<Rightarrow>
         (case connect cr of
            Inr me \<Rightarrow>
              (Inr [Some Client_v1, Some Client_v2, Some Api_v1],
               ev @ [Call Get_me, Log INFO (Connected_as (username me))])
          | Inl e \<Rightarrow>
              if isinstance e TweepyException then
                (Inr [None, None, None], ev @ [Call Get_me, Log ERROR (Authentication_failed e)])
              else (Inl e, ev @ [Call Get_me])))"

text \<open>What the outside world does during a whole run.\<close>

record world =
  environ :: "string \<Rightarrow> string option"
  connect :: "credentials \<Rightarrow> exn + user"
  ticks :: "tick list"

text \<open>
  \<^verbatim>\<open>run_bot\<close>. Line 275 unpacks the tuple into three names: a tuple of another length
  raises \<^verbatim>\<open>ValueError\<close> there, outside any \<^verbatim>\<open>try\<close>.
\<close>

definition run_bot :: "world \<Rightarrow> run_end \<times> event list" where
  "run_bot w =
    (case authenticate_twitter (environ w) (connect w) of
       (Inl e, ev) \<Rightarrow> (Raised e, Print Starting_Twitter_bot # ev)
     | (Inr [c1, c2, a1], ev) \<Rightarrow>
         if c1 = None \<or> c2 = None then
           (Returned, Print Starting_Twitter_bot # ev @ [Print Could_not_authenticate])
         else
           (case run_loop (ticks w) initial_state of
              (r, s, ev') \<Rightarrow> (r, Print Starting_Twitter_bot # ev @ [Print Bot_is_now_running] @ ev'))
     | (Inr _, ev) \<Rightarrow>
         (Raised (Exn Exception ''not enough values to unpack (expected 3, got 2)''),
          Print Starting_Twitter_bot # ev))"

subsection \<open>Example environments\<close>

text \<open>A collaborator that answers every call.\<close>

definition client_ok :: client where
  "client_ok =
    \<lparr>get_me = Inr \<lparr>user_id = 1, username = ''bot''\<rparr>,
     create_tweet = (\<lambda>text reply_to. Inr ''1001''),
     get_users_mentions = (\<lambda>uid since. Inr \<lparr>data = [], includes_users = None\<rparr>),
     get_user = (\<lambda>uid. Inr \<lparr>user_id = uid, username = ''alice''\<rparr>),
     follow_user = (\<lambda>uid. None),
     search_recent_tweets = (\<lambda>query. Inr [])\<rparr>"

text \<open>Collaborators that refuse every \<^verbatim>\<open>create_tweet\<close>: with HTTP 429, and with HTTP 403.\<close>

definition client_rate_limited :: client where
  "client_rate_limited =
    client_ok\<lparr>create_tweet := (\<lambda>text reply_to. Inl (Exn TooManyRequests ''429 Too Many Requests''))\<rparr>"

definition client_forbidden :: client where
  "client_forbidden =
    client_ok\<lparr>create_tweet := (\<lambda>text reply_to. Inl (Exn Forbidden ''403 Forbidden''))\<rparr>"

text \<open>A pass of the loop at clock reading \<open>now\<close> in which every sleep returns.\<close>

definition tick_at :: "real \<Rightarrow> client \<Rightarrow> tick" where
  "tick_at now c = \<lparr>time_time = Inr now, choice = 0, client_v1 = c, time_sleep = (\<lambda>n. None)\<rparr>"

text \<open>A pass of the loop in which an \<^verbatim>\<open>OSError\<close> escapes before the actions.\<close>

definition failing_tick :: tick where
  "failing_tick =
    \<lparr>time_time = Inl (Exn Exception ''clock failure''), choice = 0, client_v1 = client_ok,
     time_sleep = (\<lambda>n. None)\<rparr>"

text \<open>The state after three failed cycles.\<close>

definition three_failures :: bot_state where
  "three_failures = initial_state\<lparr>consecutive_errors := 3\<rparr>"

text \<open>The durations of the sleeps in a list of effects.\<close>

fun sleeps :: "event list \<Rightarrow> nat list" where
  "sleeps [] = []"
| "sleeps (Sleep n # ev) = n # sleeps ev"
| "sleeps (x # ev) = sleeps ev"

text \<open>A process environment with every credential set, and one without the API key.\<close>

definition env_full :: "string \<Rightarrow> string option" where
  "env_full var = (if var \<in> set required_vars then Some ''secret'' else None)"

definition env_missing_key :: "string \<Rightarrow> string option" where
  "env_missing_key = env_full(''TWITTER_API_KEY'' := None)"

definition bot_user :: user where
  "bot_user = \<lparr>user_id = 1, username = ''bot''\<rparr>"

text \<open>
  A pass of the loop in which an \<^verbatim>\<open>OSError\<close> escapes before the actions and CTRL+C is
  pressed during the sleep that follows it; and one in which CTRL+C is pressed during the
  steady sleep.
\<close>

definition interrupted_backoff_tick :: tick where
  "interrupted_backoff_tick =
    \<lparr>time_time = Inl (Exn Exception ''clock failure''), choice = 0, client_v1 = client_ok,
     time_sleep = (\<lambda>n. if n = 100 then None else Some (Exn KeyboardInterrupt []))\<rparr>"

definition interrupted_sleep_tick :: tick where
  "interrupted_sleep_tick =
    \<lparr>time_time = Inr 100, choice = 0, client_v1 = client_ok,
     time_sleep = (\<lambda>n. Some (Exn KeyboardInterrupt []))\<rparr>"

definition world_of :: "(string \<Rightarrow> string option) \<Rightarrow> (exn + user) \<Rightarrow> tick list \<Rightarrow> world" where
  "world_of env me ts = \<lparr>environ = env, connect = (\<lambda>cr. me), ticks = ts\<rparr>"

text \<open>
  A pass of the loop at clock reading \<open>now\<close> in which the steady sleep of line 318 raises an
  \<^verbatim>\<open>OSError\<close> and every other sleep returns.
\<close>

definition sleep_failing_tick :: "real \<Rightarrow> tick" where
  "sleep_failing_tick now =
    \<lparr>time_time = Inr now, choice = 0, client_v1 = client_ok,
     time_sleep = (\<lambda>n. if n = 100 then Some (Exn Exception ''[Errno 22] Invalid argument'') else None)\<rparr>"

text \<open>
  The letters of a message whatever their case: \<open>same_letter a b\<close> when \<open>a\<close> is \<open>b\<close>, or the
  capital of the small letter \<open>b\<close>.
\<close>

definition same_letter :: "char \<Rightarrow> char \<Rightarrow> bool" where
  "same_letter a b \<longleftrightarrow>
    a = b \<or> (a, b) \<in> set (zip ''ABCDEFGHIJKLMNOPQRSTUVWXYZ'' ''abcdefghijklmnopqrstuvwxyz'')"

text \<open>
  A collaborator whose search finds four tweets, and an API object for which the first
  two of them are liked already: it answers with the error of the v1.1 API (HTTP 403,
  code 139) for the first, and with the same words in capitals for the second.
\<close>

definition client_three_found :: client where
  "client_three_found =
    client_ok\<lparr>search_recent_tweets :=
      (\<lambda>query. Inr [\<lparr>tweet_id = 11\<rparr>, \<lparr>tweet_id = 12\<rparr>, \<lparr>tweet_id = 13\<rparr>, \<lparr>tweet_id = 14\<rparr>])\<rparr>"

definition api_two_liked :: api where
  "api_two_liked =
    \<lparr>create_favorite =
       (\<lambda>i. if i = 11 then Some (Exn Forbidden ''403 Forbidden 139 - You have already favorited this status.'')
            else if i = 12 then Some (Exn TweepyException ''Already Favorited'')
            else None),
     get_followers = (\<lambda>uid. Inr []),
     get_friends = (\<lambda>uid. Inr [])\<rparr>"

text \<open>
  A collaborator that reports one new mention, with id 10 by the user 7, and refuses every
  \<^verbatim>\<open>create_tweet\<close> with HTTP 429.
\<close>

definition client_reply_limited :: client where
  "client_reply_limited =
    client_ok
      \<lparr>create_tweet := (\<lambda>text reply_to. Inl (Exn TooManyRequests ''429 Too Many Requests'')),
       get_users_mentions :=
         (\<lambda>uid since. Inr \<lparr>data = [\<lparr>mention_id = 10, author_id = 7\<rparr>], includes_users = None\<rparr>)\<rparr>"

text \<open>A collaborator whose \<^verbatim>\<open>get_me\<close> fails.\<close>

definition client_down :: client where
  "client_down = client_ok\<lparr>get_me := Inl (Exn TweepyException ''503 Service Unavailable'')\<rparr>"



section \<open>Properties\<close>

subsection \<open>Helper facts\<close>

lemma isinstance_Exn [simp]: "isinstance (Exn c m) d = issubclass c d"
  by (simp add: isinstance_def)

lemma Exception_not_KeyboardInterrupt:
  "isinstance e Exception \<Longrightarrow> \<not> isinstance e KeyboardInterrupt"
  by (cases e) (auto simp: isinstance_def)

lemma TooManyRequests_is_Exception:
  "isinstance e TooManyRequests \<Longrightarrow> isinstance e Exception"
  by (cases e) (auto simp: isinstance_def)

lemma reply_to_mentions_fst:
  "fst (reply_to_mentions sl c since) =
    (case fst (reply_body sl c since) of
       Inr v \<Rightarrow> Inr v
     | Inl e \<Rightarrow> if isinstance e Exception then Inr since else Inl e)"
proof -
  obtain rb ev where rb: "reply_body sl c since = (rb, ev)"
    by (cases "reply_body sl c since")
  show ?thesis
  proof (cases rb)
    case (Inr v)
    with rb show ?thesis by (simp add: reply_to_mentions_def)
  next
    case (Inl e)
    with rb TooManyRequests_is_Exception [of e] show ?thesis
      by (cases "isinstance e TooManyRequests") (simp_all add: reply_to_mentions_def)
  qed
qed

lemma sleeps_append [simp]: "sleeps (xs @ ys) = sleeps xs @ sleeps ys"
  by (induction xs rule: sleeps.induct) auto

lemma post_tweet_absorbs:
  assumes "create_tweet c (random_choice r TWEETS) None = Inl e" and "isinstance e Exception"
  shows "post_tweet r c =
    (Inr None,
     [Call (Create_tweet (random_choice r TWEETS) None),
      Log (if isinstance e TooManyRequests then WARNING else ERROR)
          (if isinstance e TooManyRequests then Rate_limit_exceeded
           else if isinstance e Forbidden then Posting_tweets_forbidden
           else Error_posting_tweet e)])"
  using assms by (simp add: post_tweet_def Let_def)

lemma actions_counter:
  "consecutive_errors (fst (snd (actions t s))) = consecutive_errors s"
  by (simp add: actions_def split: sum.splits prod.splits)

lemma cycle_last_tweet_time:
  "last_tweet_time (fst (snd (cycle t s))) = last_tweet_time (fst (snd (actions t s)))"
proof -
  obtain r s1 ev where a: "actions t s = (r, s1, ev)"
    by (cases "actions t s")
  show ?thesis
  proof (cases r)
    case (Inl e)
    with a show ?thesis
      by (simp add: cycle_def try_block_def Let_def split: option.splits)
  next
    case (Inr u)
    with a show ?thesis
      by (cases "time_sleep t 100")
        (simp_all add: cycle_def try_block_def Let_def split: option.splits)
  qed
qed

lemma actions_last_tweet_time:
  "last_tweet_time (fst (snd (actions t s))) =
     (case time_time t of
        Inl e \<Rightarrow> last_tweet_time s
      | Inr now \<Rightarrow>
          if is_due now s \<and>
             (case create_tweet (client_v1 t) (random_choice (choice t) TWEETS) None of
                Inr tid \<Rightarrow> tid \<noteq> [] | Inl e \<Rightarrow> False)
          then now else last_tweet_time s)"
proof (cases "time_time t")
  case (Inl e)
  then show ?thesis by (simp add: actions_def)
next
  case (Inr now)
  show ?thesis
  proof (cases "create_tweet (client_v1 t) (random_choice (choice t) TWEETS) None")
    case (Inl e)
    with Inr show ?thesis by (simp add: actions_def post_tweet_def Let_def)
  next
    case r: (Inr tid)
    with Inr show ?thesis by (simp add: actions_def post_tweet_def Let_def)
  qed
qed

lemma cycle_rate_limited:
  "cycle (tick_at 5000 client_rate_limited) three_failures =
    (Continue, initial_state,
     [Call (Create_tweet ''Just another day coding with Python! #Python #Coding'' None),
      Log WARNING Rate_limit_exceeded, Log INFO Waiting_for_next_check, Sleep 100])"
  by (simp add: cycle_def try_block_def actions_def post_tweet_def client_rate_limited_def
      client_ok_def tick_at_def three_failures_def initial_state_def is_due_def
      TWEET_INTERVAL_def random_choice_def TWEETS_def Let_def)

subsection \<open>Failed actions and failed cycles\<close>

text \<open>
  Claim C1, as amended. A failure of the action that the action classifies (a rate limit,
  a refusal, or any other \<^verbatim>\<open>Exception\<close> raised by \<^verbatim>\<open>create_tweet\<close>) is absorbed by
  \<^verbatim>\<open>post_tweet\<close>, which returns \<^verbatim>\<open>None\<close>: the cycle completes, \<^verbatim>\<open>consecutive_errors\<close> is
  reset to 0 whatever it was, \<^verbatim>\<open>last_tweet_time\<close> is left as it was, and the steady sleep of
  100 seconds follows. The cycle does not count as failed.
\<close>

theorem cycle_absorbs_action_failure:
  assumes "time_time t = Inr now" and "is_due now s"
    and "create_tweet (client_v1 t) (random_choice (choice t) TWEETS) None = Inl e"
    and "isinstance e Exception" and "time_sleep t 100 = None"
  shows "fst (post_tweet (choice t) (client_v1 t)) = Inr None \<and>
         cycle t s =
           (Continue, s\<lparr>consecutive_errors := 0\<rparr>,
            snd (post_tweet (choice t) (client_v1 t)) @ [Log INFO Waiting_for_next_check, Sleep 100])"
  using assms post_tweet_absorbs [OF assms(3,4)]
  by (simp add: cycle_def try_block_def actions_def Let_def)

text \<open>The theorem at a rate-limited post after three failed cycles.\<close>

theorem cycle_absorbs_action_failure_witness:
  "time_time (tick_at 5000 client_rate_limited) = Inr 5000 \<and>
   is_due 5000 three_failures \<and>
   isinstance (Exn TooManyRequests ''429 Too Many Requests'') Exception \<and>
   time_sleep (tick_at 5000 client_rate_limited) 100 = None \<and>
   fst (post_tweet 0 client_rate_limited) = Inr None \<and>
   fst (cycle (tick_at 5000 client_rate_limited) three_failures) = Continue \<and>
   consecutive_errors (fst (snd (cycle (tick_at 5000 client_rate_limited) three_failures))) = 0"
proof -
  let ?t = "tick_at 5000 client_rate_limited"
  have h1: "time_time ?t = Inr 5000"
    by (simp add: tick_at_def)
  have h2: "is_due 5000 three_failures"
    by (simp add: is_due_def three_failures_def initial_state_def TWEET_INTERVAL_def)
  have h3: "create_tweet (client_v1 ?t) (random_choice (choice ?t) TWEETS) None
             = Inl (Exn TooManyRequests ''429 Too Many Requests'')"
    by (simp add: tick_at_def client_rate_limited_def client_ok_def)
  have h4: "isinstance (Exn TooManyRequests ''429 Too Many Requests'') Exception"
    by simp
  have h5: "time_sleep ?t 100 = None"
    by (simp add: tick_at_def)
  have c: "choice ?t = 0" "client_v1 ?t = client_rate_limited"
    by (simp_all add: tick_at_def)
  from cycle_absorbs_action_failure [OF h1 h2 h3 h4 h5] h1 h2 h4 h5 c
  show ?thesis by simp
qed

text \<open>
  Claim C1 as stated fails: after three failed cycles, a cycle in which the post is rate
  limited ends with the counter at 0, not at 4, and with the steady sleep.
\<close>

theorem failed_action_resets_counter_counterexample:
  "consecutive_errors three_failures = 3 \<and>
   fst (post_tweet 0 client_rate_limited) = Inr None \<and>
   Log WARNING Rate_limit_exceeded \<in> set (snd (post_tweet 0 client_rate_limited)) \<and>
   fst (cycle (tick_at 5000 client_rate_limited) three_failures) = Continue \<and>
   consecutive_errors (fst (snd (cycle (tick_at 5000 client_rate_limited) three_failures))) = 0 \<and>
   consecutive_errors (fst (snd (cycle (tick_at 5000 client_rate_limited) three_failures))) \<noteq> 3 + 1 \<and>
   sleeps (snd (snd (cycle (tick_at 5000 client_rate_limited) three_failures))) = [100]"
  by (simp add: cycle_rate_limited)
    (simp add: post_tweet_def client_rate_limited_def client_ok_def three_failures_def
      initial_state_def Let_def)

subsection \<open>The counter of consecutive errors\<close>

lemma actions_sleep_failing:
  "fst (actions (sleep_failing_tick now) s) = Inr ()"
  by (simp add: actions_def sleep_failing_tick_def post_tweet_def client_ok_def Let_def)

lemma cycle_sleep_failing_tick:
  "cycle (sleep_failing_tick 1730000000) three_failures =
    (Continue,
     \<lparr>since_id = None, last_tweet_time = 1730000000, last_follow_back_time = 0,
      consecutive_errors = 1\<rparr>,
     [Call (Create_tweet ''Just another day coding with Python! #Python #Coding'' None),
      Log INFO (Posted_tweet ''Just another day coding with Python! #Python #Coding'' ''1001''),
      Log INFO Waiting_for_next_check, Sleep 100,
      Log ERROR (Unhandled_error (Exn Exception ''[Errno 22] Invalid argument'')),
      Log WARNING (Waiting_seconds_before_retry 300), Sleep 300])"
  by (simp add: cycle_def try_block_def actions_def post_tweet_def client_ok_def
      sleep_failing_tick_def three_failures_def initial_state_def is_due_def TWEET_INTERVAL_def
      random_choice_def TWEETS_def Let_def max_errors_def wait_time_def)

text \<open>
  Claim C3, as amended. The actions of a cycle never write \<^verbatim>\<open>consecutive_errors\<close>, however
  many of them fail. The counter is reset to 0 when the actions complete without an
  exception reaching the loop (line 314), before the steady sleep of line 318, and it is
  incremented once when an \<^verbatim>\<open>Exception\<close> reaches the handler of line 323. After one pass of
  the loop the counter is therefore: the old value plus one when an \<^verbatim>\<open>Exception\<close> escaped
  from the actions; 0 when the pass completed; 1, whatever the old value was, when the
  steady sleep raised an \<^verbatim>\<open>Exception\<close>, because the reset was made before it; and the old
  value, or 0 after the reset, when the pass was interrupted by something that is not an
  \<^verbatim>\<open>Exception\<close>.
\<close>

theorem counter_after_cycle:
  "consecutive_errors (fst (snd (actions t s))) = consecutive_errors s \<and>
   consecutive_errors (fst (snd (cycle t s))) =
     (case fst (actions t s) of
        Inl e \<Rightarrow> if isinstance e Exception then consecutive_errors s + 1 else consecutive_errors s
      | Inr u \<Rightarrow>
          (case time_sleep t 100 of
             None \<Rightarrow> 0
           | Some e \<Rightarrow> if isinstance e Exception then 1 else 0))"
proof -
  obtain r s1 ev where a: "actions t s = (r, s1, ev)"
    by (cases "actions t s")
  have c: "consecutive_errors s1 = consecutive_errors s"
    using actions_counter [of t s] a by simp
  show ?thesis
    using a c Exception_not_KeyboardInterrupt
    by (cases r) (auto simp: cycle_def try_block_def Let_def max_errors_def split: option.splits)
qed

text \<open>
  The theorem after three failed cycles: at a cycle that fails before the reset, at a
  completed one, and at one that fails in the steady sleep.
\<close>

theorem counter_after_cycle_witness:
  "consecutive_errors (fst (snd (cycle failing_tick three_failures))) = 4 \<and>
   consecutive_errors (fst (snd (cycle (tick_at 5000 client_forbidden) three_failures))) = 0 \<and>
   consecutive_errors (fst (snd (cycle (sleep_failing_tick 1730000000) three_failures))) = 1"
proof -
  have a1: "fst (actions failing_tick three_failures) = Inl (Exn Exception ''clock failure'')"
    by (simp add: actions_def failing_tick_def)
  have a2: "fst (actions (tick_at 5000 client_forbidden) three_failures) = Inr ()"
    by (simp add: actions_def tick_at_def post_tweet_def client_forbidden_def client_ok_def
        Let_def)
  have a3: "time_sleep (tick_at 5000 client_forbidden) 100 = None"
    by (simp add: tick_at_def)
  have a4: "consecutive_errors three_failures = 3"
    by (simp add: three_failures_def initial_state_def)
  have a5: "fst (actions (sleep_failing_tick 1730000000) three_failures) = Inr ()"
    by (rule actions_sleep_failing)
  have a6: "time_sleep (sleep_failing_tick 1730000000) 100
      = Some (Exn Exception ''[Errno 22] Invalid argument'')"
    by (simp add: sleep_failing_tick_def)
  from counter_after_cycle [of failing_tick three_failures]
    counter_after_cycle [of "tick_at 5000 client_forbidden" three_failures]
    counter_after_cycle [of "sleep_failing_tick 1730000000" three_failures]
    a1 a2 a3 a4 a5 a6
  show ?thesis by simp
qed

text \<open>
  Claim C3 as stated fails at a cycle whose steady sleep raises an \<^verbatim>\<open>Exception\<close> after three
  failed cycles: the cycle raises an unhandled failure, yet the counter is reset in it and
  ends at 1, not at 4.
\<close>

theorem failed_sleep_restarts_counter_counterexample:
  "consecutive_errors three_failures = 3 \<and>
   time_sleep (sleep_failing_tick 1730000000) 100
     = Some (Exn Exception ''[Errno 22] Invalid argument'') \<and>
   Log ERROR (Unhandled_error (Exn Exception ''[Errno 22] Invalid argument''))
     \<in> set (snd (snd (cycle (sleep_failing_tick 1730000000) three_failures))) \<and>
   consecutive_errors (fst (snd (cycle (sleep_failing_tick 1730000000) three_failures))) = 1 \<and>
   consecutive_errors (fst (snd (cycle (sleep_failing_tick 1730000000) three_failures))) \<noteq> 3 + 1"
  unfolding cycle_sleep_failing_tick
  by (simp add: three_failures_def initial_state_def sleep_failing_tick_def)

subsection \<open>Backoff\<close>

lemma actions_raises_Exception:
  assumes "fst (actions t s) = Inl e" and "isinstance e Exception"
  shows "actions t s = (Inl e, s, [])"
proof (cases "time_time t")
  case (Inl e')
  with assms show ?thesis by (simp add: actions_def)
next
  case (Inr now)
  show ?thesis
  proof (cases "is_due now s")
    case False
    with Inr assms show ?thesis by (simp add: actions_def)
  next
    case True
    show ?thesis
    proof (cases "create_tweet (client_v1 t) (random_choice (choice t) TWEETS) None")
      case c: (Inl e')
      with Inr True assms show ?thesis
        by (simp add: actions_def post_tweet_def Let_def split: if_splits)
    next
      case c: (Inr tid)
      with Inr True assms show ?thesis
        by (simp add: actions_def post_tweet_def Let_def)
    qed
  qed
qed

lemma cycle_early_failure:
  assumes a: "fst (actions t s) = Inl e" and x: "isinstance e Exception"
  shows "cycle t s =
    (if consecutive_errors s + 1 \<ge> 5 then
       (Break, s\<lparr>consecutive_errors := consecutive_errors s + 1\<rparr>,
        [Log ERROR (Unhandled_error e),
         Log CRITICAL (Too_many_consecutive_errors (consecutive_errors s + 1))])
     else
       (case time_sleep t (wait_time (consecutive_errors s + 1)) of
          None \<Rightarrow> Continue | Some e' \<Rightarrow> Raise e',
        s\<lparr>consecutive_errors := consecutive_errors s + 1\<rparr>,
        [Log ERROR (Unhandled_error e),
         Log WARNING (Waiting_seconds_before_retry (wait_time (consecutive_errors s + 1))),
         Sleep (wait_time (consecutive_errors s + 1))]))"
  using actions_raises_Exception [OF a x] x Exception_not_KeyboardInterrupt [OF x]
  by (simp add: cycle_def try_block_def Let_def max_errors_def split: option.splits)

lemma sleeps_actions: "sleeps (snd (snd (actions t s))) = []"
proof (cases "time_time t")
  case (Inl e')
  then show ?thesis by (simp add: actions_def)
next
  case (Inr now)
  show ?thesis
  proof (cases "create_tweet (client_v1 t) (random_choice (choice t) TWEETS) None")
    case c: (Inl e')
    with Inr show ?thesis
      by (simp add: actions_def post_tweet_def Let_def)
  next
    case c: (Inr tid)
    with Inr show ?thesis
      by (simp add: actions_def post_tweet_def Let_def)
  qed
qed

lemma cycle_steady_sleep_failure:
  assumes a: "fst (actions t s) = Inr ()" and b: "time_sleep t 100 = Some e"
    and x: "isinstance e Exception"
  shows "cycle t s =
    (case time_sleep t 300 of None \<Rightarrow> Continue | Some e' \<Rightarrow> Raise e',
     (fst (snd (actions t s)))\<lparr>consecutive_errors := 1\<rparr>,
     snd (snd (actions t s)) @
     [Log INFO Waiting_for_next_check, Sleep 100, Log ERROR (Unhandled_error e),
      Log WARNING (Waiting_seconds_before_retry 300), Sleep 300])"
proof -
  obtain r s1 ev where ac: "actions t s = (r, s1, ev)"
    by (cases "actions t s")
  with a have r: "r = Inr ()"
    by simp
  from ac r b x Exception_not_KeyboardInterrupt [OF x] show ?thesis
    by (simp add: cycle_def try_block_def Let_def max_errors_def wait_time_def
        split: option.splits)
qed

lemma wait_times: "map wait_time [1..<5] = [300, 600, 1200, 2400]"
  by (simp add: wait_time_def upt_rec)

lemma run_early_failures:
  assumes "\<forall>t \<in> set (take (5 - consecutive_errors s) ts).
      (\<forall>s'. \<exists>e. fst (actions t s') = Inl e \<and> isinstance e Exception) \<and>
      (\<forall>n. time_sleep t n = None)"
    and "consecutive_errors s < 5"
  shows "if consecutive_errors s + length ts < 5 then
       fst (run_loop ts s) = Running \<and>
       consecutive_errors (fst (snd (run_loop ts s))) = consecutive_errors s + length ts \<and>
       sleeps (snd (snd (run_loop ts s))) =
         map wait_time [consecutive_errors s + 1 ..< consecutive_errors s + length ts + 1]
     else
       fst (run_loop ts s) = Returned \<and>
       consecutive_errors (fst (snd (run_loop ts s))) = 5 \<and>
       sleeps (snd (snd (run_loop ts s))) = map wait_time [consecutive_errors s + 1 ..< 5]"
  using assms
proof (induction ts arbitrary: s)
  case Nil
  then show ?case by simp
next
  case (Cons t ts)
  let ?c = "consecutive_errors s"
  let ?s1 = "s\<lparr>consecutive_errors := ?c + 1\<rparr>"
  from Cons.prems(2) have tk: "take (5 - ?c) (t # ts) = t # take (5 - (?c + 1)) ts"
  proof -
    from Cons.prems(2) have "5 - ?c = Suc (5 - (?c + 1))"
      by simp
    then show ?thesis
      by (simp only: take_Suc_Cons)
  qed
  from Cons.prems(1) have pt: "\<forall>s'. \<exists>e. fst (actions t s') = Inl e \<and> isinstance e Exception"
    and sl: "\<forall>n. time_sleep t n = None"
    and rest: "\<forall>t \<in> set (take (5 - (?c + 1)) ts).
      (\<forall>s'. \<exists>e. fst (actions t s') = Inl e \<and> isinstance e Exception) \<and>
      (\<forall>n. time_sleep t n = None)"
    unfolding tk by simp_all
  from pt obtain e where e: "fst (actions t s) = Inl e" "isinstance e Exception"
    by blast
  note cy = cycle_early_failure [OF e]
  show ?case
  proof (cases "?c + 1 \<ge> 5")
    case True
    with Cons.prems(2) have c4: "?c = 4"
      by simp
    from cy True have "run_loop (t # ts) s =
      (Returned, ?s1,
       [Log ERROR (Unhandled_error e), Log CRITICAL (Too_many_consecutive_errors (?c + 1))])"
      by simp
    with c4 show ?thesis
      by simp
  next
    case False
    from cy False sl have c1: "cycle t s =
      (Continue, ?s1,
       [Log ERROR (Unhandled_error e),
        Log WARNING (Waiting_seconds_before_retry (wait_time (?c + 1))),
        Sleep (wait_time (?c + 1))])"
      by simp
    have lt: "consecutive_errors ?s1 < 5"
      using False by simp
    have c1': "consecutive_errors ?s1 = ?c + 1"
      by simp
    from rest have rest': "\<forall>t \<in> set (take (5 - consecutive_errors ?s1) ts).
      (\<forall>s'. \<exists>e. fst (actions t s') = Inl e \<and> isinstance e Exception) \<and>
      (\<forall>n. time_sleep t n = None)"
      by simp
    note ih = Cons.IH [OF rest' lt]
    obtain r s2 ev where rl: "run_loop ts ?s1 = (r, s2, ev)"
      by (cases "run_loop ts ?s1")
    with c1 have rr: "run_loop (t # ts) s =
      (r, s2,
       [Log ERROR (Unhandled_error e),
        Log WARNING (Waiting_seconds_before_retry (wait_time (?c + 1))),
        Sleep (wait_time (?c + 1))] @ ev)"
      by simp
    show ?thesis
    proof (cases "?c + 1 + length ts < 5")
      case True
      with ih rl have r: "r = Running" "consecutive_errors s2 = ?c + 1 + length ts"
        "sleeps ev = map wait_time [?c + 1 + 1 ..< ?c + 1 + length ts + 1]"
        by (simp_all add: c1')
      have u: "[?c + 1 ..< ?c + length (t # ts) + 1] = (?c + 1) # [?c + 1 + 1 ..< ?c + 1 + length ts + 1]"
      proof -
        have a: "?c + 1 < ?c + length (t # ts) + 1"
          by simp
        have b: "Suc (?c + 1) = ?c + 1 + 1"
          by simp
        have c: "?c + length (t # ts) + 1 = ?c + 1 + length ts + 1"
          by simp
        show ?thesis
          using upt_conv_Cons [OF a] unfolding b c .
      qed
      from True have "?c + length (t # ts) < 5"
        by simp
      with rr r show ?thesis
        unfolding u by simp
    next
      case f: False
      with ih rl have r: "r = Returned" "consecutive_errors s2 = 5"
        "sleeps ev = map wait_time [?c + 1 + 1 ..< 5]"
        by (simp_all add: c1')
      have u: "[?c + 1 ..< 5] = (?c + 1) # [?c + 1 + 1 ..< 5]"
        using False by (simp add: upt_conv_Cons)
      from f have "\<not> ?c + length (t # ts) < 5"
        by simp
      with rr r show ?thesis
        unfolding u by simp
    qed
  qed
qed

lemma run_steady_sleep_failures:
  assumes "\<forall>t \<in> set ts. (\<forall>s'. fst (actions t s') = Inr ()) \<and>
      (\<exists>e. time_sleep t 100 = Some e \<and> isinstance e Exception) \<and> time_sleep t 300 = None"
  shows "fst (run_loop ts s) = Running \<and>
    sleeps (snd (snd (run_loop ts s))) = concat (map (\<lambda>t. [100, 300]) ts) \<and>
    (ts \<noteq> [] \<longrightarrow> consecutive_errors (fst (snd (run_loop ts s))) = 1)"
  using assms
proof (induction ts arbitrary: s)
  case Nil
  then show ?case by simp
next
  case (Cons t ts)
  from Cons.prems have a: "fst (actions t s) = Inr ()"
    and sl: "time_sleep t 300 = None"
    and rest: "\<forall>t \<in> set ts. (\<forall>s'. fst (actions t s') = Inr ()) \<and>
      (\<exists>e. time_sleep t 100 = Some e \<and> isinstance e Exception) \<and> time_sleep t 300 = None"
    by simp_all
  from Cons.prems obtain e where e: "time_sleep t 100 = Some e" "isinstance e Exception"
    by auto
  let ?s1 = "(fst (snd (actions t s)))\<lparr>consecutive_errors := 1\<rparr>"
  let ?ev = "snd (snd (actions t s)) @
     [Log INFO Waiting_for_next_check, Sleep 100, Log ERROR (Unhandled_error e),
      Log WARNING (Waiting_seconds_before_retry 300), Sleep 300]"
  from cycle_steady_sleep_failure [OF a e] sl have c1: "cycle t s = (Continue, ?s1, ?ev)"
    by simp
  note ih = Cons.IH [OF rest, of ?s1]
  obtain r s2 ev where rl: "run_loop ts ?s1 = (r, s2, ev)"
    by (cases "run_loop ts ?s1")
  with c1 have rr: "run_loop (t # ts) s = (r, s2, ?ev @ ev)"
    by simp
  from ih rl have r: "r = Running" "sleeps ev = concat (map (\<lambda>t. [100, 300]) ts)"
    "ts \<noteq> [] \<longrightarrow> consecutive_errors s2 = 1"
    by simp_all
  have "ts = [] \<Longrightarrow> s2 = ?s1"
    using rl by simp
  then have cnt: "consecutive_errors s2 = 1"
    using r(3) by (cases ts) simp_all
  from rr r cnt show ?case
    by (simp add: sleeps_actions)
qed

lemma actions_failing_tick:
  "actions failing_tick s = (Inl (Exn Exception ''clock failure''), s, [])"
  by (simp add: actions_def failing_tick_def)

lemma run_five_sleep_failures:
  "run_loop [sleep_failing_tick 1730000000, sleep_failing_tick 1730000400,
             sleep_failing_tick 1730000800, sleep_failing_tick 1730001200,
             sleep_failing_tick 1730001600] initial_state =
    (Running,
     \<lparr>since_id = None, last_tweet_time = 1730000000, last_follow_back_time = 0,
      consecutive_errors = 1\<rparr>,
     [Call (Create_tweet ''Just another day coding with Python! #Python #Coding'' None),
      Log INFO (Posted_tweet ''Just another day coding with Python! #Python #Coding'' ''1001''),
      Log INFO Waiting_for_next_check, Sleep 100,
      Log ERROR (Unhandled_error (Exn Exception ''[Errno 22] Invalid argument'')),
      Log WARNING (Waiting_seconds_before_retry 300), Sleep 300,
      Log INFO Waiting_for_next_check, Sleep 100,
      Log ERROR (Unhandled_error (Exn Exception ''[Errno 22] Invalid argument'')),
      Log WARNING (Waiting_seconds_before_retry 300), Sleep 300,
      Log INFO Waiting_for_next_check, Sleep 100,
      Log ERROR (Unhandled_error (Exn Exception ''[Errno 22] Invalid argument'')),
      Log WARNING (Waiting_seconds_before_retry 300), Sleep 300,
      Log INFO Waiting_for_next_check, Sleep 100,
      Log ERROR (Unhandled_error (Exn Exception ''[Errno 22] Invalid argument'')),
      Log WARNING (Waiting_seconds_before_retry 300), Sleep 300,
      Log INFO Waiting_for_next_check, Sleep 100,
      Log ERROR (Unhandled_error (Exn Exception ''[Errno 22] Invalid argument'')),
      Log WARNING (Waiting_seconds_before_retry 300), Sleep 300])"
  by (simp add: cycle_def try_block_def actions_def post_tweet_def client_ok_def
      sleep_failing_tick_def initial_state_def is_due_def TWEET_INTERVAL_def
      random_choice_def TWEETS_def Let_def max_errors_def wait_time_def)

text \<open>
  Claim C2, as amended. When an \<^verbatim>\<open>Exception\<close> reaches the handler of the loop, let \<open>n\<close> be the
  counter after the increment of line 324: the loop stops without sleeping if \<open>n\<close> has
  reached 5, and otherwise sleeps \<open>min (300 * 2 ^ (n - 1)) 3600\<close> seconds in place of the
  steady 100. \<open>n\<close> is the number of failed cycles in a row when each of them failed before
  the reset of line 314: from the start, fewer than five such cycles sleep 300, 600, 1200
  and 2400 seconds in this order, and the fifth stops the loop instead of sleeping, whatever
  would have come next, so that the ceiling of 3600 is never slept. A cycle that fails in
  the steady sleep of line 318 fails after the reset: \<open>n\<close> is 1 and it sleeps 300 seconds,
  however many cycles failed before it, and a run of such cycles never stops the loop.
\<close>

theorem backoff_schedule:
  "(try_block t s = (Inl e, s1, ev) \<and> isinstance e Exception \<and> n = consecutive_errors s1 + 1 \<longrightarrow>
      consecutive_errors (fst (snd (cycle t s))) = n \<and>
      (if n \<ge> 5 then
         fst (cycle t s) = Break \<and>
         snd (snd (cycle t s)) =
           ev @ [Log ERROR (Unhandled_error e), Log CRITICAL (Too_many_consecutive_errors n)]
       else
         fst (cycle t s) =
           (case time_sleep t (min (300 * 2 ^ (n - 1)) 3600) of
              None \<Rightarrow> Continue | Some e' \<Rightarrow> Raise e') \<and>
         snd (snd (cycle t s)) =
           ev @ [Log ERROR (Unhandled_error e),
                 Log WARNING (Waiting_seconds_before_retry (min (300 * 2 ^ (n - 1)) 3600)),
                 Sleep (min (300 * 2 ^ (n - 1)) 3600)])) \<and>
   ((\<forall>t \<in> set (take 5 ts).
        (\<forall>s'. \<exists>e. fst (actions t s') = Inl e \<and> isinstance e Exception) \<and>
        (\<forall>n. time_sleep t n = None)) \<longrightarrow>
      (if length ts < 5 then
         fst (run_loop ts initial_state) = Running \<and>
         consecutive_errors (fst (snd (run_loop ts initial_state))) = length ts \<and>
         sleeps (snd (snd (run_loop ts initial_state))) =
           map (\<lambda>n. min (300 * 2 ^ (n - 1)) 3600) [1 ..< length ts + 1]
       else
         fst (run_loop ts initial_state) = Returned \<and>
         consecutive_errors (fst (snd (run_loop ts initial_state))) = 5 \<and>
         sleeps (snd (snd (run_loop ts initial_state))) = [300, 600, 1200, 2400])) \<and>
   ((\<forall>t \<in> set ts'.
        (\<forall>s'. fst (actions t s') = Inr ()) \<and>
        (\<exists>e. time_sleep t 100 = Some e \<and> isinstance e Exception) \<and> time_sleep t 300 = None) \<longrightarrow>
      fst (run_loop ts' s0) = Running \<and>
      sleeps (snd (snd (run_loop ts' s0))) = concat (map (\<lambda>t. [100, 300]) ts') \<and>
      (ts' \<noteq> [] \<longrightarrow> consecutive_errors (fst (snd (run_loop ts' s0))) = 1))"
  (is "?G \<and> ?R \<and> ?S")
proof -
  have general: ?G
  proof (rule impI)
    assume a: "try_block t s = (Inl e, s1, ev) \<and> isinstance e Exception \<and>
      n = consecutive_errors s1 + 1"
    from a have a1: "try_block t s = (Inl e, s1, ev)"
      by simp
    from a have a2: "isinstance e Exception"
      by simp
    from a have a3: "n = consecutive_errors s1 + 1"
      by simp
    have a4: "\<not> isinstance e KeyboardInterrupt"
      by (rule Exception_not_KeyboardInterrupt [OF a2])
    show "consecutive_errors (fst (snd (cycle t s))) = n \<and>
      (if n \<ge> 5 then
         fst (cycle t s) = Break \<and>
         snd (snd (cycle t s)) =
           ev @ [Log ERROR (Unhandled_error e), Log CRITICAL (Too_many_consecutive_errors n)]
       else
         fst (cycle t s) =
           (case time_sleep t (min (300 * 2 ^ (n - 1)) 3600) of
              None \<Rightarrow> Continue | Some e' \<Rightarrow> Raise e') \<and>
         snd (snd (cycle t s)) =
           ev @ [Log ERROR (Unhandled_error e),
                 Log WARNING (Waiting_seconds_before_retry (min (300 * 2 ^ (n - 1)) 3600)),
                 Sleep (min (300 * 2 ^ (n - 1)) 3600)])"
      using a1 a2 a3 a4
      by (simp add: cycle_def Let_def max_errors_def wait_time_def split: option.splits)
  qed
  have early: ?R
  proof (rule impI)
    assume h: "\<forall>t \<in> set (take 5 ts).
        (\<forall>s'. \<exists>e. fst (actions t s') = Inl e \<and> isinstance e Exception) \<and>
        (\<forall>n. time_sleep t n = None)"
    have c0: "consecutive_errors initial_state = 0"
      by (simp add: initial_state_def)
    from h have h': "\<forall>t \<in> set (take (5 - consecutive_errors initial_state) ts).
        (\<forall>s'. \<exists>e. fst (actions t s') = Inl e \<and> isinstance e Exception) \<and>
        (\<forall>n. time_sleep t n = None)"
      by (simp only: c0 diff_zero)
    have lt: "consecutive_errors initial_state < 5"
      by (simp add: c0)
    note g = run_early_failures [OF h' lt]
    have wt: "wait_time = (\<lambda>n. min (300 * 2 ^ (n - 1)) 3600)"
      by (rule ext) (simp add: wait_time_def)
    show "if length ts < 5 then
         fst (run_loop ts initial_state) = Running \<and>
         consecutive_errors (fst (snd (run_loop ts initial_state))) = length ts \<and>
         sleeps (snd (snd (run_loop ts initial_state))) =
           map (\<lambda>n. min (300 * 2 ^ (n - 1)) 3600) [1 ..< length ts + 1]
       else
         fst (run_loop ts initial_state) = Returned \<and>
         consecutive_errors (fst (snd (run_loop ts initial_state))) = 5 \<and>
         sleeps (snd (snd (run_loop ts initial_state))) = [300, 600, 1200, 2400]"
    proof (cases "length ts < 5")
      case True
      with g c0 have "fst (run_loop ts initial_state) = Running"
        "consecutive_errors (fst (snd (run_loop ts initial_state))) = length ts"
        "sleeps (snd (snd (run_loop ts initial_state))) = map wait_time [1 ..< length ts + 1]"
        by simp_all
      with True show ?thesis
        by (simp add: wt)
    next
      case False
      with g c0 have "fst (run_loop ts initial_state) = Returned"
        "consecutive_errors (fst (snd (run_loop ts initial_state))) = 5"
        "sleeps (snd (snd (run_loop ts initial_state))) = map wait_time [1 ..< 5]"
        by simp_all
      with False show ?thesis
        unfolding wait_times by simp
    qed
  qed
  have steady: ?S
    using run_steady_sleep_failures [of ts' s0] by blast
  show ?thesis
    by (rule conjI [OF general conjI [OF early steady]])
qed

text \<open>
  The theorem at the third failure in a row, at three and at five failures of the clock
  from the start, and at two cycles that fail in the steady sleep.
\<close>

theorem backoff_schedule_witness:
  "try_block failing_tick (initial_state\<lparr>consecutive_errors := 2\<rparr>)
     = (Inl (Exn Exception ''clock failure''), initial_state\<lparr>consecutive_errors := 2\<rparr>, []) \<and>
   isinstance (Exn Exception ''clock failure'') Exception \<and>
   consecutive_errors (fst (snd (cycle failing_tick (initial_state\<lparr>consecutive_errors := 2\<rparr>)))) = 3 \<and>
   fst (cycle failing_tick (initial_state\<lparr>consecutive_errors := 2\<rparr>)) = Continue \<and>
   snd (snd (cycle failing_tick (initial_state\<lparr>consecutive_errors := 2\<rparr>))) =
     [Log ERROR (Unhandled_error (Exn Exception ''clock failure'')),
      Log WARNING (Waiting_seconds_before_retry 1200), Sleep 1200] \<and>
   fst (run_loop [failing_tick, failing_tick, failing_tick] initial_state) = Running \<and>
   sleeps (snd (snd (run_loop [failing_tick, failing_tick, failing_tick] initial_state)))
     = [300, 600, 1200] \<and>
   fst (run_loop [failing_tick, failing_tick, failing_tick, failing_tick, failing_tick,
                  tick_at 1730000000 client_ok] initial_state) = Returned \<and>
   sleeps (snd (snd (run_loop [failing_tick, failing_tick, failing_tick, failing_tick,
                  failing_tick, tick_at 1730000000 client_ok] initial_state)))
     = [300, 600, 1200, 2400] \<and>
   fst (run_loop [sleep_failing_tick 1730000000, sleep_failing_tick 1730000400] initial_state)
     = Running \<and>
   sleeps (snd (snd (run_loop [sleep_failing_tick 1730000000, sleep_failing_tick 1730000400]
      initial_state))) = [100, 300, 100, 300]"
proof -
  let ?s = "initial_state\<lparr>consecutive_errors := 2\<rparr>"
  let ?e = "Exn Exception ''clock failure''"
  let ?three = "[failing_tick, failing_tick, failing_tick]"
  let ?six = "[failing_tick, failing_tick, failing_tick, failing_tick, failing_tick,
     tick_at 1730000000 client_ok]"
  let ?two = "[sleep_failing_tick 1730000000, sleep_failing_tick 1730000400]"
  have h1: "try_block failing_tick ?s = (Inl ?e, ?s, [])"
    by (simp add: try_block_def actions_def failing_tick_def)
  have h2: "isinstance ?e Exception"
    by simp
  have h3: "(3::nat) = consecutive_errors ?s + 1"
    by simp
  have h4: "time_sleep failing_tick 1200 = None"
    by (simp add: failing_tick_def)
  have f: "(\<forall>s'. \<exists>e. fst (actions failing_tick s') = Inl e \<and> isinstance e Exception) \<and>
      (\<forall>n. time_sleep failing_tick n = None)"
    by (simp add: actions_failing_tick) (simp add: failing_tick_def)
  have h5: "\<forall>t \<in> set (take 5 ?three).
      (\<forall>s'. \<exists>e. fst (actions t s') = Inl e \<and> isinstance e Exception) \<and>
      (\<forall>n. time_sleep t n = None)"
    using f by simp
  have h6: "\<forall>t \<in> set (take 5 ?six).
      (\<forall>s'. \<exists>e. fst (actions t s') = Inl e \<and> isinstance e Exception) \<and>
      (\<forall>n. time_sleep t n = None)"
    using f by simp
  have sf: "\<And>now. (\<forall>s'. fst (actions (sleep_failing_tick now) s') = Inr ()) \<and>
      (\<exists>e. time_sleep (sleep_failing_tick now) 100 = Some e \<and> isinstance e Exception) \<and>
      time_sleep (sleep_failing_tick now) 300 = None"
    by (simp add: actions_sleep_failing) (simp add: sleep_failing_tick_def)
  have h7: "\<forall>t \<in> set ?two.
      (\<forall>s'. fst (actions t s') = Inr ()) \<and>
      (\<exists>e. time_sleep t 100 = Some e \<and> isinstance e Exception) \<and> time_sleep t 300 = None"
    using sf by simp
  note g = backoff_schedule [where t = failing_tick and s = ?s and e = ?e and ?s1.0 = ?s
      and ev = "[]" and n = 3, THEN conjunct1, THEN mp, OF conjI [OF h1 conjI [OF h2 h3]]]
  note r3 = backoff_schedule [where ts = ?three, THEN conjunct2, THEN conjunct1, THEN mp, OF h5]
  note r6 = backoff_schedule [where ts = ?six, THEN conjunct2, THEN conjunct1, THEN mp, OF h6]
  note s2 = backoff_schedule [where ts' = ?two and ?s0.0 = initial_state,
      THEN conjunct2, THEN conjunct2, THEN mp, OF h7]
  from g h1 h2 h4 have p1: "try_block failing_tick ?s = (Inl ?e, ?s, []) \<and>
    isinstance ?e Exception \<and>
    consecutive_errors (fst (snd (cycle failing_tick ?s))) = 3 \<and>
    fst (cycle failing_tick ?s) = Continue \<and>
    snd (snd (cycle failing_tick ?s)) =
      [Log ERROR (Unhandled_error ?e), Log WARNING (Waiting_seconds_before_retry 1200),
       Sleep 1200]"
    by simp
  from r3 have p2: "fst (run_loop ?three initial_state) = Running \<and>
    sleeps (snd (snd (run_loop ?three initial_state))) = [300, 600, 1200]"
    by (simp add: upt_rec)
  from r6 have p3: "fst (run_loop ?six initial_state) = Returned \<and>
    sleeps (snd (snd (run_loop ?six initial_state))) = [300, 600, 1200, 2400]"
    by simp
  from s2 have p4: "fst (run_loop ?two initial_state) = Running \<and>
    sleeps (snd (snd (run_loop ?two initial_state))) = [100, 300, 100, 300]"
    by simp
  from p1 p2 p3 p4 show ?thesis
    by (simp only: simp_thms)
qed

text \<open>
  Claim C2 as stated fails at five cycles in a row that each fail in the steady sleep:
  each of them logs an unhandled error, the second sleeps 300 seconds and not 600, the
  third and the fourth do the same, and after the fifth the loop is still running.
\<close>

theorem failures_in_steady_sleep_never_escalate_counterexample:
  "fst (run_loop [sleep_failing_tick 1730000000, sleep_failing_tick 1730000400,
             sleep_failing_tick 1730000800, sleep_failing_tick 1730001200,
             sleep_failing_tick 1730001600] initial_state) = Running \<and>
   length (filter (\<lambda>x. x = Log ERROR (Unhandled_error (Exn Exception ''[Errno 22] Invalid argument'')))
     (snd (snd (run_loop [sleep_failing_tick 1730000000, sleep_failing_tick 1730000400,
             sleep_failing_tick 1730000800, sleep_failing_tick 1730001200,
             sleep_failing_tick 1730001600] initial_state)))) = 5 \<and>
   sleeps (snd (snd (run_loop [sleep_failing_tick 1730000000, sleep_failing_tick 1730000400,
             sleep_failing_tick 1730000800, sleep_failing_tick 1730001200,
             sleep_failing_tick 1730001600] initial_state)))
     = [100, 300, 100, 300, 100, 300, 100, 300, 100, 300] \<and>
   sleeps (snd (snd (run_loop [sleep_failing_tick 1730000000, sleep_failing_tick 1730000400,
             sleep_failing_tick 1730000800, sleep_failing_tick 1730001200,
             sleep_failing_tick 1730001600] initial_state)))
     \<noteq> [100, 300, 100, 600, 100, 1200, 100, 2400, 100]"
  unfolding run_five_sleep_failures by simp

subsection \<open>Cadence\<close>

lemma cycle_forbidden:
  "cycle (tick_at 5000 client_forbidden) initial_state =
    (Continue, initial_state,
     [Call (Create_tweet ''Just another day coding with Python! #Python #Coding'' None),
      Log ERROR Posting_tweets_forbidden, Log INFO Waiting_for_next_check, Sleep 100])"
  by (simp add: cycle_def try_block_def actions_def post_tweet_def client_forbidden_def
      client_ok_def tick_at_def initial_state_def is_due_def TWEET_INTERVAL_def
      random_choice_def TWEETS_def Let_def)

text \<open>
  Claim C4. \<^verbatim>\<open>last_tweet_time\<close> is unset when it holds its initial 0: nothing has been posted
  then, since its only assignment (line 300) stores a clock reading. A clock reading counts
  the seconds since 1970, so it is at least 3600. At such a reading posting is due iff
  \<^verbatim>\<open>last_tweet_time\<close> is unset or \<open>now - last_tweet_time \<ge> 3600\<close>. At any reading whatever it is
  due iff \<open>now - last_tweet_time \<ge> 3600\<close>, the test of line 298, and the action is attempted
  in a cycle iff it is due. Right after \<^verbatim>\<open>last_tweet_time\<close> is set to \<open>now\<close> the action is not
  due, and it is due again at \<open>now'\<close> iff \<open>now' - now \<ge> 3600\<close>.
\<close>

theorem is_due_iff:
  "(is_due now s \<longleftrightarrow> now - last_tweet_time s \<ge> 3600) \<and>
   (3600 \<le> now \<longrightarrow>
      (is_due now s \<longleftrightarrow> last_tweet_time s = 0 \<or> now - last_tweet_time s \<ge> 3600)) \<and>
   last_tweet_time initial_state = 0 \<and>
   (is_due now initial_state \<longleftrightarrow> now \<ge> 3600) \<and>
   \<not> is_due now (s\<lparr>last_tweet_time := now\<rparr>) \<and>
   (is_due now' (s\<lparr>last_tweet_time := now\<rparr>) \<longleftrightarrow> now' - now \<ge> 3600) \<and>
   (time_time t = Inr now \<longrightarrow>
      (Call (Create_tweet (random_choice (choice t) TWEETS) None) \<in> set (snd (snd (actions t s)))
        \<longleftrightarrow> is_due now s))"
proof -
  have a: "is_due now s \<longleftrightarrow> now - last_tweet_time s \<ge> 3600"
    by (simp add: is_due_def TWEET_INTERVAL_def)
  have u: "3600 \<le> now \<longrightarrow>
      (is_due now s \<longleftrightarrow> last_tweet_time s = 0 \<or> now - last_tweet_time s \<ge> 3600)"
    by (auto simp: is_due_def TWEET_INTERVAL_def)
  have i: "last_tweet_time initial_state = 0"
    by (simp add: initial_state_def)
  have b: "is_due now initial_state \<longleftrightarrow> now \<ge> 3600"
    by (simp add: is_due_def TWEET_INTERVAL_def initial_state_def)
  have c: "\<not> is_due now (s\<lparr>last_tweet_time := now\<rparr>)"
    by (simp add: is_due_def TWEET_INTERVAL_def)
  have d: "is_due now' (s\<lparr>last_tweet_time := now\<rparr>) \<longleftrightarrow> now' - now \<ge> 3600"
    by (simp add: is_due_def TWEET_INTERVAL_def)
  have e: "time_time t = Inr now \<longrightarrow>
      (Call (Create_tweet (random_choice (choice t) TWEETS) None) \<in> set (snd (snd (actions t s)))
        \<longleftrightarrow> is_due now s)"
  proof (rule impI)
    assume h: "time_time t = Inr now"
    show "Call (Create_tweet (random_choice (choice t) TWEETS) None) \<in> set (snd (snd (actions t s)))
        \<longleftrightarrow> is_due now s"
    proof (cases "create_tweet (client_v1 t) (random_choice (choice t) TWEETS) None")
      case (Inl x)
      with h show ?thesis
        by (simp add: actions_def post_tweet_def Let_def)
    next
      case (Inr tid)
      with h show ?thesis
        by (simp add: actions_def post_tweet_def Let_def)
    qed
  qed
  show ?thesis
    by (rule conjI [OF a conjI [OF u conjI [OF i conjI [OF b conjI [OF c conjI [OF d e]]]]]])
qed

text \<open>
  The theorem at a first post at clock reading 1730000000, one second less than an hour
  later, and one hour later.
\<close>

theorem is_due_iff_witness:
  "(3600::real) \<le> 1730000000 \<and>
   time_time (tick_at 1730000000 client_ok) = Inr 1730000000 \<and>
   last_tweet_time initial_state = 0 \<and>
   is_due 1730000000 initial_state \<and>
   Call (Create_tweet ''Just another day coding with Python! #Python #Coding'' None)
     \<in> set (snd (snd (actions (tick_at 1730000000 client_ok) initial_state))) \<and>
   \<not> is_due 1730000000 (initial_state\<lparr>last_tweet_time := 1730000000\<rparr>) \<and>
   \<not> is_due 1730003599 (initial_state\<lparr>last_tweet_time := 1730000000\<rparr>) \<and>
   is_due 1730003600 (initial_state\<lparr>last_tweet_time := 1730000000\<rparr>)"
proof -
  have h: "time_time (tick_at 1730000000 client_ok) = Inr 1730000000"
    by (simp add: tick_at_def)
  have r: "(3600::real) \<le> 1730000000"
    by simp
  have c: "random_choice (choice (tick_at 1730000000 client_ok)) TWEETS
      = ''Just another day coding with Python! #Python #Coding''"
    by (simp add: tick_at_def random_choice_def TWEETS_def)
  note g1 = is_due_iff [where now = 1730000000 and s = initial_state and now' = 1730003600
      and t = "tick_at 1730000000 client_ok"]
  note g2 = is_due_iff [where now = 1730000000 and s = initial_state and now' = 1730003599
      and t = "tick_at 1730000000 client_ok"]
  note u = g1 [THEN conjunct2, THEN conjunct1, THEN mp, OF r]
  from g1 g2 u h r c show ?thesis
    by simp
qed

text \<open>
  Claim C5, as amended. \<^verbatim>\<open>last_tweet_time\<close> is set to the current time exactly when posting
  was due and \<^verbatim>\<open>create_tweet\<close> returned a non-empty tweet id. It is left as it was when the
  action was not due, when the clock failed, and after every failure of \<^verbatim>\<open>create_tweet\<close>
  (rate limit, refusal, or anything else), so that a failed action is due again at the
  next cycle.
\<close>

theorem mark_ran_iff:
  "last_tweet_time (fst (snd (cycle t s))) =
     (case time_time t of
        Inl e \<Rightarrow> last_tweet_time s
      | Inr now \<Rightarrow>
          if is_due now s \<and>
             (case create_tweet (client_v1 t) (random_choice (choice t) TWEETS) None of
                Inr tid \<Rightarrow> tid \<noteq> [] | Inl e \<Rightarrow> False)
          then now else last_tweet_time s)"
  by (simp only: cycle_last_tweet_time actions_last_tweet_time)

text \<open>The theorem at a successful first post at clock reading 5000.\<close>

theorem mark_ran_iff_witness:
  "is_due 5000 initial_state \<and>
   create_tweet client_ok ''Just another day coding with Python! #Python #Coding'' None
     = Inr ''1001'' \<and>
   last_tweet_time (fst (snd (cycle (tick_at 5000 client_ok) initial_state))) = 5000"
proof -
  have h: "time_time (tick_at 5000 client_ok) = Inr 5000"
    by (simp add: tick_at_def)
  have d: "is_due 5000 initial_state"
    by (simp add: is_due_def TWEET_INTERVAL_def initial_state_def)
  have c: "create_tweet (client_v1 (tick_at 5000 client_ok))
      (random_choice (choice (tick_at 5000 client_ok)) TWEETS) None = Inr ''1001''"
    by (simp add: tick_at_def client_ok_def)
  have c': "create_tweet client_ok ''Just another day coding with Python! #Python #Coding'' None
     = Inr ''1001''"
    by (simp add: client_ok_def)
  from mark_ran_iff [of "tick_at 5000 client_ok" initial_state] h d c c'
  show ?thesis
    by simp
qed

text \<open>
  Claim C5 as stated fails at a refused post: the call was made and answered with
  \<^verbatim>\<open>Forbidden\<close>, a classified failure, and \<^verbatim>\<open>last_tweet_time\<close> stays at 0 instead of
  becoming 5000.
\<close>

theorem refused_post_not_marked_counterexample:
  "is_due 5000 initial_state \<and>
   create_tweet client_forbidden ''Just another day coding with Python! #Python #Coding'' None
     = Inl (Exn Forbidden ''403 Forbidden'') \<and>
   Call (Create_tweet ''Just another day coding with Python! #Python #Coding'' None)
     \<in> set (snd (snd (cycle (tick_at 5000 client_forbidden) initial_state))) \<and>
   last_tweet_time (fst (snd (cycle (tick_at 5000 client_forbidden) initial_state))) = 0 \<and>
   last_tweet_time (fst (snd (cycle (tick_at 5000 client_forbidden) initial_state))) \<noteq> 5000"
  unfolding cycle_forbidden
  by (simp add: is_due_def TWEET_INTERVAL_def initial_state_def client_forbidden_def
      client_ok_def)

subsection \<open>Starting and stopping\<close>

lemma get_credentials_full:
  "get_credentials env_full =
    (Some \<lparr>api_key = Some ''secret'', api_secret = Some ''secret'',
            access_token = Some ''secret'', access_secret = Some ''secret'',
            bearer_token = Some ''secret''\<rparr>, [])"
  by (simp add: get_credentials_def env_full_def required_vars_def)

lemma get_credentials_missing_key:
  "get_credentials env_missing_key =
    (None, [Log ERROR (Missing_environment_variables [''TWITTER_API_KEY'']),
            Log ERROR Create_a_env_file])"
  by (simp add: get_credentials_def env_missing_key_def env_full_def required_vars_def)

lemma authenticate_full:
  "authenticate_twitter env_full (\<lambda>cr. Inr bot_user) =
    (Inr [Some Client_v1, Some Client_v2, Some Api_v1],
     [Call Get_me, Log INFO (Connected_as ''bot'')])"
  by (simp add: authenticate_twitter_def get_credentials_full bot_user_def)

lemma cycle_interrupted_backoff:
  "cycle interrupted_backoff_tick initial_state =
    (Raise (Exn KeyboardInterrupt []), initial_state\<lparr>consecutive_errors := 1\<rparr>,
     [Log ERROR (Unhandled_error (Exn Exception ''clock failure'')),
      Log WARNING (Waiting_seconds_before_retry 300), Sleep 300])"
  by (simp add: cycle_def try_block_def actions_def interrupted_backoff_tick_def Let_def
      max_errors_def wait_time_def initial_state_def)

lemma cycle_interrupted_sleep:
  "cycle interrupted_sleep_tick initial_state =
    (Break, initial_state,
     [Log INFO Waiting_for_next_check, Sleep 100, Print Bot_stopped_by_user])"
  by (simp add: cycle_def try_block_def actions_def interrupted_sleep_tick_def Let_def
      initial_state_def is_due_def TWEET_INTERVAL_def)

text \<open>
  Claim C6 at CTRL+C during the backoff sleep. The \<^verbatim>\<open>KeyboardInterrupt\<close> raised by the sleep
  of line 334 is inside the handler of line 323 and is caught by nothing: it leaves
  \<^verbatim>\<open>run_bot\<close>, the goodbye line is not printed and no later cycle runs. The same key
  pressed during the steady sleep of line 318 is caught by the handler of line 320, which
  prints the goodbye line and leaves the loop.
\<close>

theorem interrupt_in_backoff_sleep_escapes:
  "run_bot (world_of env_full (Inr bot_user) (interrupted_backoff_tick # rest)) =
    (Raised (Exn KeyboardInterrupt []),
     [Print Starting_Twitter_bot, Call Get_me, Log INFO (Connected_as ''bot''),
      Print Bot_is_now_running,
      Log ERROR (Unhandled_error (Exn Exception ''clock failure'')),
      Log WARNING (Waiting_seconds_before_retry 300), Sleep 300]) \<and>
   run_bot (world_of env_full (Inr bot_user) (interrupted_sleep_tick # rest)) =
    (Returned,
     [Print Starting_Twitter_bot, Call Get_me, Log INFO (Connected_as ''bot''),
      Print Bot_is_now_running,
      Log INFO Waiting_for_next_check, Sleep 100, Print Bot_stopped_by_user])"
  by (simp add: run_bot_def world_of_def authenticate_full cycle_interrupted_backoff
      cycle_interrupted_sleep)

text \<open>
  Claim C8 at a missing credential. \<^verbatim>\<open>authenticate_twitter\<close> returns the pair
  \<^verbatim>\<open>(None, None)\<close> at line 79, and the unpacking into three names at line 275 raises
  \<^verbatim>\<open>ValueError\<close>, which leaves \<^verbatim>\<open>run_bot\<close>: the line of line 277 is not printed. When the
  collaborator refuses the credentials instead, the triple of line 110 is returned, the
  line is printed and \<^verbatim>\<open>run_bot\<close> returns. In both runs the loop is never entered.
\<close>

theorem missing_credential_raises_ValueError:
  "run_bot (world_of env_missing_key (Inr bot_user) ts) =
    (Raised (Exn Exception ''not enough values to unpack (expected 3, got 2)''),
     [Print Starting_Twitter_bot,
      Log ERROR (Missing_environment_variables [''TWITTER_API_KEY'']),
      Log ERROR Create_a_env_file]) \<and>
   run_bot (world_of env_full (Inl (Exn TweepyException ''401 Unauthorized'')) ts) =
    (Returned,
     [Print Starting_Twitter_bot, Call Get_me,
      Log ERROR (Authentication_failed (Exn TweepyException ''401 Unauthorized'')),
      Print Could_not_authenticate])"
  by (simp add: run_bot_def world_of_def authenticate_twitter_def get_credentials_full
      get_credentials_missing_key)

subsection \<open>Errors that report the effect as done already\<close>

lemma fst_prepend [simp]: "fst (prepend ev p) = fst p"
  by (simp add: prepend_def)

lemma snd_prepend [simp]: "snd (prepend ev p) = ev @ snd p"
  by (simp add: prepend_def)

lemma prepend_pair [simp]: "prepend ev (r, ev') = (r, ev @ ev')"
  by (simp add: prepend_def)

lemma same_letter_lower:
  assumes "same_letter a b" and "lower_char b = b"
  shows "lower_char a = b"
  using assms by (auto simp: same_letter_def lower_char_def char_of_def bit_Suc_0_iff)

lemma same_letters_lower:
  "list_all2 same_letter xs ys \<Longrightarrow> \<forall>y \<in> set ys. lower_char y = y \<Longrightarrow> lower xs = ys"
  unfolding lower_def
  by (induction xs ys rule: list_all2_induct) (simp_all add: same_letter_lower)

lemma contains_prefix: "contains (n @ post) n"
proof (cases "n @ post")
  case Nil
  then show ?thesis by simp
next
  case (Cons a list)
  have "take (length n) (n @ post) = n"
    by simp
  then have "contains (a # list) n"
    unfolding Cons by simp
  then show ?thesis
    unfolding Cons .
qed

lemma contains_append: "contains s n \<Longrightarrow> contains (pre @ s) n"
  by (induction pre) simp_all

lemma says_already_favorited:
  assumes "m = pre @ mid @ post" and "list_all2 same_letter mid ''already favorited''"
  shows "contains (lower m) ''already favorited''"
proof -
  have "\<forall>y \<in> set ''already favorited''. lower_char y = y"
    by (simp add: lower_char_def)
  with assms(2) have "lower mid = ''already favorited''"
    by (rule same_letters_lower)
  with assms(1) have eq: "lower m = lower pre @ ''already favorited'' @ lower post"
    by (simp add: lower_def)
  have "contains (lower pre @ ''already favorited'' @ lower post) ''already favorited''"
    by (rule contains_append [OF contains_prefix])
  then show ?thesis
    unfolding eq .
qed

lemma like_loop_already_done:
  assumes "create_favorite api_v1 (tweet_id t) = Some e" and "isinstance e TweepyException"
    and "str e = pre @ mid @ post" and "list_all2 same_letter mid ''already favorited''"
  shows "like_loop sl api_v1 hashtag (t # ts) n =
    prepend [Call (Create_favorite (tweet_id t)), Log INFO (Tweet_already_liked (tweet_id t))]
      (like_loop sl api_v1 hashtag ts n)"
  using assms(1,2) says_already_favorited [OF assms(3,4)] by (simp add: like_one_def)

lemma like_loop_liked:
  assumes "create_favorite api_v1 (tweet_id t) = None" and "sl 5 = None"
  shows "like_loop sl api_v1 hashtag (t # ts) n =
    prepend [Call (Create_favorite (tweet_id t)), Log INFO (Liked_tweet hashtag (tweet_id t)), Sleep 5]
      (like_loop sl api_v1 hashtag ts (n + 1))"
  using assms by (simp add: like_one_def)

lemma like_loop_all_benign:
  assumes h: "\<forall>i e. create_favorite api_v1 i = Some e \<longrightarrow>
      isinstance e TweepyException \<and>
      (\<exists>pre mid post. str e = pre @ mid @ post \<and> list_all2 same_letter mid ''already favorited'')"
    and sl: "sl 5 = None"
  shows "fst (like_loop sl api_v1 hashtag ts n) =
      Inr (n + length (filter (\<lambda>t. create_favorite api_v1 (tweet_id t) = None) ts)) \<and>
    (\<forall>t \<in> set ts. Call (Create_favorite (tweet_id t)) \<in> set (snd (like_loop sl api_v1 hashtag ts n))) \<and>
    (\<forall>l m. Log l m \<in> set (snd (like_loop sl api_v1 hashtag ts n)) \<longrightarrow> l = INFO)"
proof (induction ts arbitrary: n)
  case Nil
  show ?case by simp
next
  case (Cons t ts)
  show ?case
  proof (cases "create_favorite api_v1 (tweet_id t)")
    case None
    note st = like_loop_liked [where sl = sl and hashtag = hashtag and ts = ts and n = n, OF None sl]
    from Cons.IH [of "n + 1"] None show ?thesis
      unfolding st by auto
  next
    case (Some e)
    with h obtain pre mid post where e: "isinstance e TweepyException"
      "str e = pre @ mid @ post" "list_all2 same_letter mid ''already favorited''"
      by blast
    note st = like_loop_already_done [where sl = sl and hashtag = hashtag and ts = ts and n = n,
        OF Some e]
    from Cons.IH [of n] Some show ?thesis
      unfolding st by auto
  qed
qed

lemma like_tweets_two_liked:
  "like_tweets 0 (\<lambda>n. None) client_three_found api_two_liked =
    (Inr 1,
     [Call (Search_recent_tweets ''#python -is:retweet lang:en''),
      Call (Create_favorite 11), Log INFO (Tweet_already_liked 11),
      Call (Create_favorite 12), Log INFO (Tweet_already_liked 12),
      Call (Create_favorite 13), Log INFO (Liked_tweet ''python'' 13), Sleep 5])"
  by (simp add: like_tweets_def like_body_def like_one_def client_three_found_def client_ok_def
      api_two_liked_def Let_def MAX_LIKES_PER_RUN_def random_choice_def HASHTAGS_TO_LIKE_def
      lower_def lower_char_def char_of_def bit_Suc_0_iff)

text \<open>
  Claim C7. Line 154 catches the errors of the API binding, the instances of
  \<^verbatim>\<open>TweepyException\<close>, and line 155 reads their message. When the message holds the words
  \<^verbatim>\<open>already favorited\<close>, in small or in capital letters, the error is logged at level INFO
  and nothing else happens: the loop goes on with the remaining targets, the count
  unchanged. For the action as a whole: when every error of \<^verbatim>\<open>create_favorite\<close> is of this
  kind, \<^verbatim>\<open>like_tweets\<close> returns the number of likes it made and raises nothing into its
  caller, so that nothing reaches the handler of line 323, the only place where
  \<^verbatim>\<open>consecutive_errors\<close> is incremented; every one of the first three tweets found is
  tried, and every line logged is at level INFO.
\<close>

theorem already_favorited_is_no_failure:
  "(create_favorite api_v1 (tweet_id t) = Some e \<and> isinstance e TweepyException \<and>
      str e = pre @ mid @ post \<and> list_all2 same_letter mid ''already favorited'' \<longrightarrow>
    like_loop sl api_v1 hashtag (t # ts) n =
      prepend [Call (Create_favorite (tweet_id t)), Log INFO (Tweet_already_liked (tweet_id t))]
        (like_loop sl api_v1 hashtag ts n)) \<and>
   (search_recent_tweets client_v2 (''#'' @ random_choice r HASHTAGS_TO_LIKE @ '' -is:retweet lang:en'')
        = Inr tweets \<and>
    (\<forall>i e. create_favorite api_v1 i = Some e \<longrightarrow>
       isinstance e TweepyException \<and>
       (\<exists>pre mid post. str e = pre @ mid @ post \<and>
          list_all2 same_letter mid ''already favorited'')) \<and>
    sl 5 = None \<longrightarrow>
    fst (like_tweets r sl client_v2 api_v1) =
      Inr (length (filter (\<lambda>t. create_favorite api_v1 (tweet_id t) = None) (take 3 tweets))) \<and>
    (\<forall>t \<in> set (take 3 tweets).
       Call (Create_favorite (tweet_id t)) \<in> set (snd (like_tweets r sl client_v2 api_v1))) \<and>
    (\<forall>l m. Log l m \<in> set (snd (like_tweets r sl client_v2 api_v1)) \<longrightarrow> l = INFO))"
  (is "?STEP \<and> ?ALL")
proof -
  have step: ?STEP
    using like_loop_already_done by blast
  have all: ?ALL
  proof (rule impI)
    let ?h = "random_choice r HASHTAGS_TO_LIKE"
    let ?q = "''#'' @ ?h @ '' -is:retweet lang:en''"
    assume a: "search_recent_tweets client_v2 ?q = Inr tweets \<and>
      (\<forall>i e. create_favorite api_v1 i = Some e \<longrightarrow>
         isinstance e TweepyException \<and>
         (\<exists>pre mid post. str e = pre @ mid @ post \<and>
            list_all2 same_letter mid ''already favorited'')) \<and>
      sl 5 = None"
    from a have s: "search_recent_tweets client_v2 ?q = Inr tweets"
      by (rule conjunct1)
    from a have h: "\<forall>i e. create_favorite api_v1 i = Some e \<longrightarrow>
         isinstance e TweepyException \<and>
         (\<exists>pre mid post. str e = pre @ mid @ post \<and>
            list_all2 same_letter mid ''already favorited'')"
      by (rule conjunct2 [THEN conjunct1])
    from a have sl: "sl 5 = None"
      by (rule conjunct2 [THEN conjunct2])
    note l = like_loop_all_benign [where sl = sl and hashtag = ?h and ts = "take 3 tweets"
        and n = 0, OF h sl]
    show "fst (like_tweets r sl client_v2 api_v1) =
        Inr (length (filter (\<lambda>t. create_favorite api_v1 (tweet_id t) = None) (take 3 tweets))) \<and>
      (\<forall>t \<in> set (take 3 tweets).
         Call (Create_favorite (tweet_id t)) \<in> set (snd (like_tweets r sl client_v2 api_v1))) \<and>
      (\<forall>l m. Log l m \<in> set (snd (like_tweets r sl client_v2 api_v1)) \<longrightarrow> l = INFO)"
    proof (cases "tweets = []")
      case True
      with s show ?thesis
        by (simp add: like_tweets_def like_body_def Let_def)
    next
      case False
      obtain res ev where ll: "like_loop sl api_v1 ?h (take 3 tweets) 0 = (res, ev)"
        by (cases "like_loop sl api_v1 ?h (take 3 tweets) 0")
      with l obtain k where k: "res = Inr k"
        by simp
      from s False ll k have lt: "like_tweets r sl client_v2 api_v1 =
          (Inr k, Call (Search_recent_tweets ?q) # ev)"
        by (simp add: like_tweets_def like_body_def Let_def MAX_LIKES_PER_RUN_def)
      from l ll k show ?thesis
        unfolding lt by auto
    qed
  qed
  show ?thesis
    by (rule conjI [OF step all])
qed

text \<open>
  The theorem at four tweets found, of which the first two are liked already: the third is
  liked, and the fourth is beyond the three likes of a run.
\<close>

theorem already_favorited_is_no_failure_witness:
  "search_recent_tweets client_three_found ''#python -is:retweet lang:en''
     = Inr [\<lparr>tweet_id = 11\<rparr>, \<lparr>tweet_id = 12\<rparr>, \<lparr>tweet_id = 13\<rparr>, \<lparr>tweet_id = 14\<rparr>] \<and>
   create_favorite api_two_liked 12 = Some (Exn TweepyException ''Already Favorited'') \<and>
   list_all2 same_letter ''Already Favorited'' ''already favorited'' \<and>
   fst (like_tweets 0 (\<lambda>n. None) client_three_found api_two_liked) = Inr 1 \<and>
   Call (Create_favorite 13) \<in> set (snd (like_tweets 0 (\<lambda>n. None) client_three_found api_two_liked)) \<and>
   Log INFO (Tweet_already_liked 12)
     \<in> set (snd (like_tweets 0 (\<lambda>n. None) client_three_found api_two_liked)) \<and>
   Log ERROR (Error_liking_tweet 12 (Exn TweepyException ''Already Favorited''))
     \<notin> set (snd (like_tweets 0 (\<lambda>n. None) client_three_found api_two_liked))"
proof -
  let ?tweets = "[\<lparr>tweet_id = 11\<rparr>, \<lparr>tweet_id = 12\<rparr>, \<lparr>tweet_id = 13\<rparr>, \<lparr>tweet_id = 14\<rparr>]"
  have q: "''#'' @ random_choice 0 HASHTAGS_TO_LIKE @ '' -is:retweet lang:en''
      = ''#python -is:retweet lang:en''"
    by (simp add: random_choice_def HASHTAGS_TO_LIKE_def)
  have h1: "search_recent_tweets client_three_found
      (''#'' @ random_choice 0 HASHTAGS_TO_LIKE @ '' -is:retweet lang:en'') = Inr ?tweets"
    by (simp add: client_three_found_def client_ok_def)
  have m1: "''403 Forbidden 139 - You have already favorited this status.''
      = ''403 Forbidden 139 - You have '' @ ''already favorited'' @ '' this status.'' \<and>
      list_all2 same_letter ''already favorited'' ''already favorited''"
    by (simp add: same_letter_def)
  have m2: "''Already Favorited'' = [] @ ''Already Favorited'' @ [] \<and>
      list_all2 same_letter ''Already Favorited'' ''already favorited''"
    by (simp add: same_letter_def)
  have h2: "\<forall>i e. create_favorite api_two_liked i = Some e \<longrightarrow>
       isinstance e TweepyException \<and>
       (\<exists>pre mid post. str e = pre @ mid @ post \<and>
          list_all2 same_letter mid ''already favorited'')"
  proof (intro allI impI)
    fix i e
    assume "create_favorite api_two_liked i = Some e"
    then consider "e = Exn Forbidden ''403 Forbidden 139 - You have already favorited this status.''"
      | "e = Exn TweepyException ''Already Favorited''"
      by (auto simp: api_two_liked_def split: if_splits)
    then show "isinstance e TweepyException \<and>
       (\<exists>pre mid post. str e = pre @ mid @ post \<and>
          list_all2 same_letter mid ''already favorited'')"
    proof cases
      case 1
      have "isinstance e TweepyException"
        using 1 by simp
      moreover have "\<exists>pre mid post. str e = pre @ mid @ post \<and>
          list_all2 same_letter mid ''already favorited''"
        unfolding 1 exn.sel using m1 by blast
      ultimately show ?thesis ..
    next
      case 2
      have "isinstance e TweepyException"
        using 2 by simp
      moreover have "\<exists>pre mid post. str e = pre @ mid @ post \<and>
          list_all2 same_letter mid ''already favorited''"
        unfolding 2 exn.sel using m2 by blast
      ultimately show ?thesis ..
    qed
  qed
  have h3: "(\<lambda>n::nat. None :: exn option) 5 = None"
    by simp
  note g = already_favorited_is_no_failure [where ?client_v2.0 = client_three_found
      and r = 0 and tweets = ?tweets and ?api_v1.0 = api_two_liked and sl = "\<lambda>n. None",
      THEN conjunct2, THEN mp, OF conjI [OF h1 conjI [OF h2 h3]]]
  from g have p1: "fst (like_tweets 0 (\<lambda>n. None) client_three_found api_two_liked) = Inr 1"
    by (simp add: api_two_liked_def)
  from g have p2: "Call (Create_favorite 13)
      \<in> set (snd (like_tweets 0 (\<lambda>n. None) client_three_found api_two_liked))"
    by simp
  from g have p3: "Log ERROR (Error_liking_tweet 12 (Exn TweepyException ''Already Favorited''))
      \<notin> set (snd (like_tweets 0 (\<lambda>n. None) client_three_found api_two_liked))"
    by auto
  have p4: "Log INFO (Tweet_already_liked 12)
     \<in> set (snd (like_tweets 0 (\<lambda>n. None) client_three_found api_two_liked))"
    unfolding like_tweets_two_liked by simp
  have p5: "create_favorite api_two_liked 12 = Some (Exn TweepyException ''Already Favorited'')"
    by (simp add: api_two_liked_def)
  from h1 q have p6: "search_recent_tweets client_three_found ''#python -is:retweet lang:en''
     = Inr ?tweets"
    by simp
  from p1 p2 p3 p4 p5 p6 m2 show ?thesis
    by (simp only: simp_thms)
qed

subsection \<open>The mention cursor\<close>

lemma reply_loop_fst:
  "fst (reply_loop sl c resp since (m # ms) new) =
    (if newer (mention_id m) since then
       (case fst (resolve_username c resp m) of
          Inl e \<Rightarrow> Inl e
        | Inr uname \<Rightarrow>
            (case fst (reply_one sl c uname m) of
               None \<Rightarrow>
                 fst (reply_loop sl c resp since ms
                   (if newer (mention_id m) new then Some (mention_id m) else new))
             | Some e \<Rightarrow>
                 if isinstance e Exception then
                   fst (reply_loop sl c resp since ms
                     (if newer (mention_id m) new then Some (mention_id m) else new))
                 else Inl e))
     else fst (reply_loop sl c resp since ms new))"
proof (cases "newer (mention_id m) since")
  case False
  then show ?thesis by simp
next
  case True
  obtain ru ev where ru: "resolve_username c resp m = (ru, ev)"
    by (cases "resolve_username c resp m")
  show ?thesis
  proof (cases ru)
    case (Inl e)
    with True ru show ?thesis by simp
  next
    case (Inr uname)
    obtain ro ev1 where ro: "reply_one sl c uname m = (ro, ev1)"
      by (cases "reply_one sl c uname m")
    show ?thesis
    proof (cases ro)
      case None
      with True ru Inr ro show ?thesis by (simp add: Let_def)
    next
      case (Some e)
      with True ru Inr ro show ?thesis by (simp add: Let_def)
    qed
  qed
qed

lemma reply_loop_cursor:
  "fst (reply_loop sl c resp since ms new) = Inr r \<Longrightarrow>
    r = new \<or> (\<exists>m \<in> set ms. r = Some (mention_id m) \<and> newer (mention_id m) since)"
proof (induction ms arbitrary: new)
  case Nil
  then show ?case by simp
next
  case (Cons m ms)
  let ?new' = "if newer (mention_id m) new then Some (mention_id m) else new"
  show ?case
  proof (cases "newer (mention_id m) since")
    case False
    with Cons.prems have "fst (reply_loop sl c resp since ms new) = Inr r"
      by (simp add: reply_loop_fst del: reply_loop.simps)
    from Cons.IH [OF this] show ?thesis by auto
  next
    case True
    have "fst (reply_loop sl c resp since ms ?new') = Inr r"
    proof (cases "fst (resolve_username c resp m)")
      case (Inl e)
      with Cons.prems True show ?thesis
        by (simp add: reply_loop_fst del: reply_loop.simps)
    next
      case (Inr uname)
      show ?thesis
      proof (cases "fst (reply_one sl c uname m)")
        case None
        with Cons.prems True Inr show ?thesis
          by (simp add: reply_loop_fst del: reply_loop.simps)
      next
        case (Some e)
        with Cons.prems True Inr show ?thesis
          by (simp add: reply_loop_fst del: reply_loop.simps split: if_splits)
      qed
    qed
    from Cons.IH [OF this]
    have "r = ?new' \<or> (\<exists>m \<in> set ms. r = Some (mention_id m) \<and> newer (mention_id m) since)" .
    then show ?thesis
    proof
      assume "r = ?new'"
      with True show ?thesis by (cases "newer (mention_id m) new") simp_all
    next
      assume "\<exists>m \<in> set ms. r = Some (mention_id m) \<and> newer (mention_id m) since"
      then show ?thesis by auto
    qed
  qed
qed

lemma reply_loop_cursor_after:
  "fst (reply_loop sl c resp since ms new) = Inr r \<Longrightarrow> r = cursor_after since ms new"
proof (induction ms arbitrary: new)
  case Nil
  then show ?case by simp
next
  case (Cons m ms)
  let ?new' = "if newer (mention_id m) new then Some (mention_id m) else new"
  show ?case
  proof (cases "newer (mention_id m) since")
    case False
    with Cons.prems have "fst (reply_loop sl c resp since ms new) = Inr r"
      by (simp add: reply_loop_fst del: reply_loop.simps)
    from Cons.IH [OF this] False show ?thesis by simp
  next
    case True
    have "fst (reply_loop sl c resp since ms ?new') = Inr r"
    proof (cases "fst (resolve_username c resp m)")
      case (Inl e)
      with Cons.prems True show ?thesis
        by (simp add: reply_loop_fst del: reply_loop.simps)
    next
      case (Inr uname)
      show ?thesis
      proof (cases "fst (reply_one sl c uname m)")
        case None
        with Cons.prems True Inr show ?thesis
          by (simp add: reply_loop_fst del: reply_loop.simps)
      next
        case (Some e)
        with Cons.prems True Inr show ?thesis
          by (simp add: reply_loop_fst del: reply_loop.simps split: if_splits)
      qed
    qed
    from Cons.IH [OF this] True show ?thesis by simp
  qed
qed

lemma reply_body_cursor_after:
  assumes "fst (reply_body sl c since) = Inr r" and "get_me c = Inr me"
    and "get_users_mentions c (user_id me) (if truthy_id since then since else None) = Inr resp"
  shows "r = cursor_after since (data resp) since"
proof (cases "data resp = []")
  case True
  with assms show ?thesis by (simp add: reply_body_def Let_def)
next
  case False
  with assms have "fst (reply_loop sl c resp since (data resp) since) = Inr r"
    by (simp add: reply_body_def Let_def)
  then show ?thesis by (rule reply_loop_cursor_after)
qed

lemma newer_strict:
  "newer i since \<Longrightarrow> Some i = since \<or> (\<forall>x. since = Some x \<longrightarrow> x < i)"
  by (cases since) auto

lemma reply_body_cursor:
  assumes "fst (reply_body sl c since) = Inr r"
  shows "r = since \<or>
    (\<exists>me resp m. get_me c = Inr me \<and>
       get_users_mentions c (user_id me) (if truthy_id since then since else None) = Inr resp \<and>
       m \<in> set (data resp) \<and> r = Some (mention_id m) \<and>
       (\<forall>x. since = Some x \<longrightarrow> x < mention_id m))"
proof (cases "get_me c")
  case (Inl e)
  with assms show ?thesis by (simp add: reply_body_def)
next
  case me: (Inr me)
  show ?thesis
  proof (cases "get_users_mentions c (user_id me) (if truthy_id since then since else None)")
    case (Inl e)
    with assms me show ?thesis by (simp add: reply_body_def Let_def)
  next
    case resp: (Inr resp)
    show ?thesis
    proof (cases "data resp = []")
      case True
      with assms me resp show ?thesis by (simp add: reply_body_def Let_def)
    next
      case False
      with assms me resp
      have "fst (reply_loop sl c resp since (data resp) since) = Inr r"
        by (simp add: reply_body_def Let_def)
      from reply_loop_cursor [OF this]
      have "r = since \<or>
        (\<exists>m \<in> set (data resp). r = Some (mention_id m) \<and> newer (mention_id m) since)" .
      then show ?thesis
      proof
        assume "r = since"
        then show ?thesis by (rule disjI1)
      next
        assume "\<exists>m \<in> set (data resp). r = Some (mention_id m) \<and> newer (mention_id m) since"
        then obtain m where m: "m \<in> set (data resp)" "r = Some (mention_id m)"
          "newer (mention_id m) since"
          by blast
        from newer_strict [OF m(3)] show ?thesis
        proof
          assume "Some (mention_id m) = since"
          with m(2) have "r = since" by simp
          then show ?thesis by (rule disjI1)
        next
          assume st: "\<forall>x. since = Some x \<longrightarrow> x < mention_id m"
          show ?thesis
            by (rule disjI2, intro exI conjI, rule me, rule resp, rule m(1), rule m(2), rule st)
        qed
      qed
    qed
  qed
qed

lemma reply_rate_limited:
  "reply_to_mentions (\<lambda>n. None) client_reply_limited (Some 5) =
    (Inr (Some 10),
     [Call Get_me, Call (Get_users_mentions 1 (Some 5)), Log INFO (Found_mentions 1),
      Call (Get_user 7),
      Call (Create_tweet ''@alice Thanks for the mention! This is an automated reply.'' (Some 10)),
      Log ERROR (Error_replying_to_mention (Exn TooManyRequests ''429 Too Many Requests''))])"
  by (simp add: reply_to_mentions_def reply_body_def resolve_username_def find_username_def
      reply_one_def client_reply_limited_def client_ok_def Let_def)

text \<open>
  Claim C9, as amended. Whatever \<^verbatim>\<open>since_id\<close> is given, a value returned by
  \<^verbatim>\<open>reply_to_mentions\<close> is either the input itself or the id of one of the mentions just
  received, and then an id strictly larger than the input: the cursor never moves back.
  When an \<^verbatim>\<open>Exception\<close> (a rate limit included) reaches the outer handlers of the function,
  the input is returned unchanged. An error of a single reply is not such a case: it is
  caught for that mention alone, and the cursor still advances past the mention. When the
  outer \<^verbatim>\<open>try\<close> block completes, the value returned is the one that lines 192 to 195
  compute from the mentions received, whatever the replies did.
\<close>

theorem cursor_monotone:
  "(fst (reply_to_mentions sl c since) = Inr r \<longrightarrow>
      r = since \<or>
      (\<exists>me resp m. get_me c = Inr me \<and>
         get_users_mentions c (user_id me) (if truthy_id since then since else None) = Inr resp \<and>
         m \<in> set (data resp) \<and> r = Some (mention_id m) \<and>
         (\<forall>x. since = Some x \<longrightarrow> x < mention_id m))) \<and>
   (fst (reply_body sl c since) = Inl e \<and> isinstance e Exception \<longrightarrow>
      fst (reply_to_mentions sl c since) = Inr since) \<and>
   (fst (reply_body sl c since) = Inr r \<and> get_me c = Inr me \<and>
    get_users_mentions c (user_id me) (if truthy_id since then since else None) = Inr resp \<longrightarrow>
      fst (reply_to_mentions sl c since) = Inr (cursor_after since (data resp) since))"
  (is "?MONO \<and> ?ERR \<and> ?ADV")
proof -
  have mono: ?MONO
  proof (rule impI)
    assume h: "fst (reply_to_mentions sl c since) = Inr r"
    show "r = since \<or>
      (\<exists>me resp m. get_me c = Inr me \<and>
         get_users_mentions c (user_id me) (if truthy_id since then since else None) = Inr resp \<and>
         m \<in> set (data resp) \<and> r = Some (mention_id m) \<and>
         (\<forall>x. since = Some x \<longrightarrow> x < mention_id m))"
    proof (cases "fst (reply_body sl c since)")
      case (Inl e')
      with h have "r = since"
        by (simp add: reply_to_mentions_fst split: if_splits)
      then show ?thesis by simp
    next
      case (Inr v)
      with h have "v = r"
        by (simp add: reply_to_mentions_fst)
      with Inr have "fst (reply_body sl c since) = Inr r"
        by simp
      from reply_body_cursor [OF this] show ?thesis .
    qed
  qed
  have err: ?ERR
    by (simp add: reply_to_mentions_fst)
  have adv: ?ADV
  proof (rule impI)
    assume a: "fst (reply_body sl c since) = Inr r \<and> get_me c = Inr me \<and>
      get_users_mentions c (user_id me) (if truthy_id since then since else None) = Inr resp"
    from a have a1: "fst (reply_body sl c since) = Inr r"
      by (rule conjunct1)
    from a have a2: "get_me c = Inr me"
      by (rule conjunct2 [THEN conjunct1])
    from a have a3: "get_users_mentions c (user_id me) (if truthy_id since then since else None)
        = Inr resp"
      by (rule conjunct2 [THEN conjunct2])
    from reply_body_cursor_after [OF a1 a2 a3] a1
    show "fst (reply_to_mentions sl c since) = Inr (cursor_after since (data resp) since)"
      by (simp add: reply_to_mentions_fst)
  qed
  show ?thesis
    by (rule conjI [OF mono conjI [OF err adv]])
qed

text \<open>
  The theorem at a new mention with id 10 after the cursor 5, and at a collaborator that is
  down.
\<close>

theorem cursor_monotone_witness:
  "fst (reply_to_mentions (\<lambda>n. None) client_reply_limited (Some 5)) = Inr (Some 10) \<and>
   (\<exists>me resp m. get_me client_reply_limited = Inr me \<and>
      get_users_mentions client_reply_limited (user_id me) (Some 5) = Inr resp \<and>
      m \<in> set (data resp) \<and> mention_id m = 10 \<and> 5 < mention_id m) \<and>
   fst (reply_body (\<lambda>n. None) client_down (Some 5))
     = Inl (Exn TweepyException ''503 Service Unavailable'') \<and>
   isinstance (Exn TweepyException ''503 Service Unavailable'') Exception \<and>
   fst (reply_to_mentions (\<lambda>n. None) client_down (Some 5)) = Inr (Some 5) \<and>
   fst (reply_to_mentions (\<lambda>n. None) client_reply_limited (Some 5))
     = Inr (cursor_after (Some 5) [\<lparr>mention_id = 10, author_id = 7\<rparr>] (Some 5))"
proof -
  have h1: "fst (reply_to_mentions (\<lambda>n. None) client_reply_limited (Some 5)) = Inr (Some 10)"
    by (simp add: reply_rate_limited)
  have h2: "fst (reply_body (\<lambda>n. None) client_down (Some 5))
     = Inl (Exn TweepyException ''503 Service Unavailable'')"
    by (simp add: reply_body_def client_down_def client_ok_def)
  have h3: "isinstance (Exn TweepyException ''503 Service Unavailable'') Exception"
    by simp
  note m = cursor_monotone [where sl = "\<lambda>n. None" and c = client_reply_limited
      and since = "Some 5" and r = "Some 10", THEN conjunct1, THEN mp, OF h1]
  note e = cursor_monotone [where sl = "\<lambda>n. None" and c = client_down
      and since = "Some 5" and e = "Exn TweepyException ''503 Service Unavailable''",
      THEN conjunct2, THEN conjunct1, THEN mp, OF conjI [OF h2 h3]]
  from m have "\<exists>me resp m. get_me client_reply_limited = Inr me \<and>
      get_users_mentions client_reply_limited (user_id me) (Some 5) = Inr resp \<and>
      m \<in> set (data resp) \<and> mention_id m = 10 \<and> 5 < mention_id m"
    by auto
  note p = this
  have h4: "fst (reply_body (\<lambda>n. None) client_reply_limited (Some 5)) = Inr (Some 10)"
    by (simp add: reply_body_def resolve_username_def find_username_def reply_one_def
        client_reply_limited_def client_ok_def Let_def)
  have h5: "get_me client_reply_limited = Inr \<lparr>user_id = 1, username = ''bot''\<rparr>"
    by (simp add: client_reply_limited_def client_ok_def)
  have h6: "get_users_mentions client_reply_limited (user_id \<lparr>user_id = 1, username = ''bot''\<rparr>)
      (if truthy_id (Some 5) then Some 5 else None)
      = Inr \<lparr>data = [\<lparr>mention_id = 10, author_id = 7\<rparr>], includes_users = None\<rparr>"
    by (simp add: client_reply_limited_def client_ok_def)
  note a = cursor_monotone [where sl = "\<lambda>n. None" and c = client_reply_limited
      and since = "Some 5" and r = "Some 10" and me = "\<lparr>user_id = 1, username = ''bot''\<rparr>"
      and resp = "\<lparr>data = [\<lparr>mention_id = 10, author_id = 7\<rparr>], includes_users = None\<rparr>",
      THEN conjunct2, THEN conjunct2, THEN mp, OF conjI [OF h4 conjI [OF h5 h6]]]
  from a have q: "fst (reply_to_mentions (\<lambda>n. None) client_reply_limited (Some 5))
     = Inr (cursor_after (Some 5) [\<lparr>mention_id = 10, author_id = 7\<rparr>] (Some 5))"
    by simp
  from p h1 h2 h3 e q show ?thesis
    by (simp only: simp_thms)
qed

text \<open>
  Claim C9 as stated fails at a rate limit on the reply: the error is logged, and the
  value returned is 10, not the unchanged input 5.
\<close>

theorem reply_rate_limit_advances_cursor_counterexample:
  "fst (reply_to_mentions (\<lambda>n. None) client_reply_limited (Some 5)) = Inr (Some 10) \<and>
   fst (reply_to_mentions (\<lambda>n. None) client_reply_limited (Some 5)) \<noteq> Inr (Some 5) \<and>
   Log ERROR (Error_replying_to_mention (Exn TooManyRequests ''429 Too Many Requests''))
     \<in> set (snd (reply_to_mentions (\<lambda>n. None) client_reply_limited (Some 5)))"
  by (simp add: reply_rate_limited)

subsection \<open>Exceptions that leave an action\<close>









end
